theory Spec2Isabelle
  imports Complex_Main
begin

section \<open>Single-precision arithmetic\<close>

text \<open>
  The kernel computes in C++ \<^verbatim>\<open>float\<close>.  A finite \<^verbatim>\<open>float\<close> is modelled by the rational
  number it denotes, and every arithmetic operation is the exact rational operation
  followed by one rounding to the nearest binary32 value, ties to even (the strict
  reading of the source: no fused multiply-add, no extended intermediate precision).
  Infinities, NaN and the sign of zero are outside the model: a result of magnitude
  \<open>2 ^ 128\<close> or more, and a division by zero, have no counterpart here, and the theorems
  that depend on values exclude them by hypothesis.

  \<open>expo32 x\<close> is the largest \<open>e\<close> below 256 with \<open>e = 0\<close> or \<open>2 ^ e \<le> \<bar>x\<bar> * 2 ^ 126\<close>,
  found by binary search; the spacing of binary32 values around \<open>x\<close> is
  \<open>2 ^ e / 2 ^ 149\<close> (so \<open>2 ^ - 149\<close> in the subnormal range and \<open>2 ^ - 23\<close> at 1).
\<close>

type_synonym float = rat

fun bsearch :: "nat \<Rightarrow> nat \<Rightarrow> rat \<Rightarrow> nat" where
  "bsearch 0 k a = k"
| "bsearch (Suc n) k a =
     (if 2 ^ (k + 2 ^ n) \<le> a * 2 ^ 126 then bsearch n (k + 2 ^ n) a else bsearch n k a)"

definition expo32 :: "rat \<Rightarrow> nat" where
  "expo32 x = bsearch 8 0 \<bar>x\<bar>"

definition ulp32 :: "rat \<Rightarrow> rat" where
  "ulp32 x = 2 ^ expo32 x / 2 ^ 149"

definition round_even :: "rat \<Rightarrow> int" where
  "round_even r =
     (let f = \<lfloor>r\<rfloor>; d = r - of_int f
      in if d < 1 / 2 then f else if 1 / 2 < d then f + 1 else if even f then f else f + 1)"

definition rnd32 :: "rat \<Rightarrow> float" where
  "rnd32 x = of_int (round_even (x / ulp32 x)) * ulp32 x"

definition fadd :: "float \<Rightarrow> float \<Rightarrow> float" where
  "fadd a b = rnd32 (a + b)"

definition fsub :: "float \<Rightarrow> float \<Rightarrow> float" where
  "fsub a b = rnd32 (a - b)"

definition fmul :: "float \<Rightarrow> float \<Rightarrow> float" where
  "fmul a b = rnd32 (a * b)"

definition fdiv :: "float \<Rightarrow> float \<Rightarrow> float" where
  "fdiv a b = rnd32 (a / b)"

text \<open>\<^verbatim>\<open>floorf\<close>: the floor of a binary32 value is a binary32 value, so no rounding.\<close>

definition floorf :: "float \<Rightarrow> float" where
  "floorf x = of_int \<lfloor>x\<rfloor>"

text \<open>The conversions \<^verbatim>\<open>(float)i\<close> of a signed and of an unsigned integer.\<close>

definition float_of_int :: "int \<Rightarrow> float" where
  "float_of_int i = rnd32 (of_int i)"

definition float_of_uint :: "nat \<Rightarrow> float" where
  "float_of_uint n = rnd32 (of_nat n)"

text \<open>
  A rational number is a finite binary32 value when rounding leaves it unchanged and it
  is below the overflow threshold.
\<close>

definition is_float32 :: "rat \<Rightarrow> bool" where
  "is_float32 x \<longleftrightarrow> rnd32 x = x \<and> \<bar>x\<bar> < 2 ^ 128"

text \<open>
  Modelled from the spec: \<^verbatim>\<open>float_to_int\<close> (util/math.h, not part of the sources at hand)
  is the C cast \<^verbatim>\<open>(int)x\<close>, truncation toward zero.  The cast is undefined when the
  truncated value does not fit a 32-bit \<^verbatim>\<open>int\<close>: \<open>None\<close>.
\<close>

definition INT_MIN :: int where
  "INT_MIN = - (2 ^ 31)"

definition INT_MAX :: int where
  "INT_MAX = 2 ^ 31 - 1"

definition float_to_int :: "float \<Rightarrow> int option" where
  "float_to_int x =
     (let t = (if x < 0 then \<lceil>x\<rceil> else \<lfloor>x\<rfloor>)
      in if INT_MIN \<le> t \<and> t \<le> INT_MAX then Some t else None)"

section \<open>Vector types\<close>

text \<open>
  Modelled from the spec: \<^verbatim>\<open>float2\<close> and \<^verbatim>\<open>float4\<close> with their constructors and operators
  (util/types, not part of the sources at hand) are the 2- and the 4-channel value.
\<close>

datatype float2 = make_float2 (f2_x: float) (f2_y: float)

datatype float4 = make_float4 (f4_x: float) (f4_y: float) (f4_z: float) (f4_w: float)

definition zero_float2 :: float2 where
  "zero_float2 = make_float2 0 0"

definition zero_float4 :: float4 where
  "zero_float4 = make_float4 0 0 0 0"

text \<open>\<^verbatim>\<open>operator+\<close> on \<^verbatim>\<open>float4\<close> and \<^verbatim>\<open>operator*\<close> of a \<^verbatim>\<open>float\<close> and a \<^verbatim>\<open>float4\<close>, componentwise.\<close>

definition add_float4 :: "float4 \<Rightarrow> float4 \<Rightarrow> float4" where
  "add_float4 a b =
     make_float4 (fadd (f4_x a) (f4_x b)) (fadd (f4_y a) (f4_y b))
       (fadd (f4_z a) (f4_z b)) (fadd (f4_w a) (f4_w b))"

definition mul_float_float4 :: "float \<Rightarrow> float4 \<Rightarrow> float4" where
  "mul_float_float4 f a =
     make_float4 (fmul f (f4_x a)) (fmul f (f4_y a)) (fmul f (f4_z a)) (fmul f (f4_w a))"

section \<open>The helper \<^verbatim>\<open>frac\<close>\<close>

text \<open>
  \<^verbatim>\<open>int i = float_to_int(x) - ((x < 0.0f) ? 1 : 0); *ix = i; return x - (float)i;\<close>
  The result is the returned \<^verbatim>\<open>float\<close> paired with the integer stored through \<^verbatim>\<open>ix\<close>.
  The subtraction is on 32-bit \<^verbatim>\<open>int\<close>; its overflow is undefined in C++: \<open>None\<close>.
\<close>

definition frac :: "float \<Rightarrow> (float \<times> int) option" where
  "frac x =
     (case float_to_int x of
        None \<Rightarrow> None
      | Some t \<Rightarrow>
          (let i = t - (if x < 0 then 1 else 0)
           in if i < INT_MIN then None else Some (fsub x (float_of_int i), i)))"

section \<open>Cubic B-spline basis, amplitude and offset functions\<close>

definition cubic_w0 :: "float \<Rightarrow> float" where
  "cubic_w0 a = fmul (fdiv 1 6) (fadd (fmul a (fsub (fmul a (fadd (- a) 3)) 3)) 1)"

definition cubic_w1 :: "float \<Rightarrow> float" where
  "cubic_w1 a = fmul (fdiv 1 6) (fadd (fmul (fmul a a) (fsub (fmul 3 a) 6)) 4)"

definition cubic_w2 :: "float \<Rightarrow> float" where
  "cubic_w2 a = fmul (fdiv 1 6) (fadd (fmul a (fadd (fmul a (fadd (fmul (- 3) a) 3)) 3)) 1)"

definition cubic_w3 :: "float \<Rightarrow> float" where
  "cubic_w3 a = fmul (fdiv 1 6) (fmul (fmul a a) a)"

definition cubic_g0 :: "float \<Rightarrow> float" where
  "cubic_g0 a = fadd (cubic_w0 a) (cubic_w1 a)"

definition cubic_g1 :: "float \<Rightarrow> float" where
  "cubic_g1 a = fadd (cubic_w2 a) (cubic_w3 a)"

definition cubic_h0 :: "float \<Rightarrow> float" where
  "cubic_h0 a = fsub (fdiv (cubic_w1 a) (cubic_g0 a)) 1"

definition cubic_h1 :: "float \<Rightarrow> float" where
  "cubic_h1 a = fadd (fdiv (cubic_w3 a) (cubic_g1 a)) 1"

section \<open>The basis functions in exact arithmetic\<close>

text \<open>
  The four basis polynomials, the two amplitudes and the two offsets as the specification
  writes them, over the rationals with no rounding, to compare the single-precision
  functions with.
\<close>

definition spec_w0 :: "rat \<Rightarrow> rat" where
  "spec_w0 a = 1 / 6 * (a * (a * (- a + 3) - 3) + 1)"

definition spec_w1 :: "rat \<Rightarrow> rat" where
  "spec_w1 a = 1 / 6 * (a\<^sup>2 * (3 * a - 6) + 4)"

definition spec_w2 :: "rat \<Rightarrow> rat" where
  "spec_w2 a = 1 / 6 * (a * (a * (- 3 * a + 3) + 3) + 1)"

definition spec_w3 :: "rat \<Rightarrow> rat" where
  "spec_w3 a = 1 / 6 * a ^ 3"

definition spec_g0 :: "rat \<Rightarrow> rat" where
  "spec_g0 a = spec_w0 a + spec_w1 a"

definition spec_g1 :: "rat \<Rightarrow> rat" where
  "spec_g1 a = spec_w2 a + spec_w3 a"

definition spec_h0 :: "rat \<Rightarrow> rat" where
  "spec_h0 a = spec_w1 a / spec_g0 a - 1"

definition spec_h1 :: "rat \<Rightarrow> rat" where
  "spec_h1 a = spec_w3 a / spec_g1 a + 1"

text \<open>
  \<open>approx t T B e\<close>: the computed value \<open>t\<close> is at most \<open>B\<close> in magnitude and within \<open>e\<close>
  of the exact value \<open>T\<close>.
\<close>

definition approx :: "rat \<Rightarrow> rat \<Rightarrow> rat \<Rightarrow> rat \<Rightarrow> bool" where
  "approx t T B e \<longleftrightarrow> \<bar>t\<bar> \<le> B \<and> \<bar>t - T\<bar> \<le> e"

section \<open>Image tables and external collaborators\<close>

text \<open>
  Modelled from the spec: the declarations of kernel/types.h are not part of the sources
  at hand.  The data types are the eight kinds of the spec, four of them 4-channel; the
  interpolation modes are nearest, linear, cubic and smart.  A tile descriptor is one of
  the three states of the spec; \<open>kernel_tile_descriptor_loaded\<close> and
  \<open>kernel_tile_descriptor_slot\<close> read it.
\<close>

datatype ImageDataType =
    IMAGE_DATA_TYPE_FLOAT4 | IMAGE_DATA_TYPE_BYTE4 | IMAGE_DATA_TYPE_HALF4
  | IMAGE_DATA_TYPE_FLOAT | IMAGE_DATA_TYPE_BYTE | IMAGE_DATA_TYPE_HALF
  | IMAGE_DATA_TYPE_USHORT4 | IMAGE_DATA_TYPE_USHORT

datatype InterpolationType =
    INTERPOLATION_LINEAR | INTERPOLATION_CLOSEST | INTERPOLATION_CUBIC | INTERPOLATION_SMART

datatype KernelTileDescriptor =
    KERNEL_TILE_LOADED int | KERNEL_TILE_LOAD_FAILED | KERNEL_TILE_NOT_LOADED

fun kernel_tile_descriptor_loaded :: "KernelTileDescriptor \<Rightarrow> bool" where
  "kernel_tile_descriptor_loaded (KERNEL_TILE_LOADED s) = True"
| "kernel_tile_descriptor_loaded KERNEL_TILE_LOAD_FAILED = False"
| "kernel_tile_descriptor_loaded KERNEL_TILE_NOT_LOADED = False"

fun kernel_tile_descriptor_slot :: "KernelTileDescriptor \<Rightarrow> int" where
  "kernel_tile_descriptor_slot (KERNEL_TILE_LOADED s) = s"
| "kernel_tile_descriptor_slot KERNEL_TILE_LOAD_FAILED = - 1"
| "kernel_tile_descriptor_slot KERNEL_TILE_NOT_LOADED = - 1"

definition UINT_MAX :: nat where
  "UINT_MAX = 4294967295"

text \<open>
  \<open>data\<close> is the opaque handle of the hardware image object; \<open>width\<close> and \<open>height\<close> are
  unsigned integers, converted to \<^verbatim>\<open>float\<close> where the source multiplies or divides by them.
\<close>

record KernelImageInfo =
  data :: nat
  width :: nat
  height :: nat
  data_type :: ImageDataType
  interpolation :: InterpolationType

record KernelImageTexture =
  tile_descriptor_offset :: nat
  extension :: nat
  average_color :: float4
  slot :: int

datatype differential2 = make_differential2 float2 float2

text \<open>
  \<^verbatim>\<open>kernel_data_fetch(image_textures, i)\<close> and \<^verbatim>\<open>kernel_data_fetch(image_info, i)\<close> read the two
  tables of the kernel globals.
\<close>

record KernelGlobals =
  image_textures :: "int \<Rightarrow> KernelImageTexture"
  image_info :: "int \<Rightarrow> KernelImageInfo"

text \<open>
  The constants and functions the source uses and does not define are parameters of the
  model, collected in one record: the reserved id \<^verbatim>\<open>KERNEL_IMAGE_NONE\<close>, the colour
  \<^verbatim>\<open>IMAGE_TEXTURE_MISSING_RGBA\<close>, the wrap policy (it receives \<^verbatim>\<open>uv\<close> by reference: the
  model returns the updated coordinate beside the verdict), the tile map (it receives
  \<^verbatim>\<open>xy\<close> by reference), the UDIM index (it receives \<^verbatim>\<open>uv\<close> by reference) and the two
  instances of the hardware read \<^verbatim>\<open>ccl_gpu_image_object_read_2D<T>\<close>.  Each of them is a
  function of its arguments: the texture memory is read-only during a call.
\<close>

record 'sd externals =
  KERNEL_IMAGE_NONE :: int
  IMAGE_TEXTURE_MISSING_RGBA :: float4
  kernel_image_tile_wrap :: "nat \<Rightarrow> float2 \<Rightarrow> bool \<times> float2"
  kernel_image_tile_map ::
    "KernelGlobals \<Rightarrow> 'sd \<Rightarrow> KernelImageTexture \<Rightarrow> float2 \<Rightarrow> differential2 \<Rightarrow> float2
       \<Rightarrow> KernelTileDescriptor \<times> float2"
  kernel_image_udim_map :: "KernelGlobals \<Rightarrow> int \<Rightarrow> float2 \<Rightarrow> int \<times> float2"
  read_2D_float :: "nat \<Rightarrow> float \<Rightarrow> float \<Rightarrow> float"
  read_2D_float4 :: "nat \<Rightarrow> float \<Rightarrow> float \<Rightarrow> float4"

text \<open>
  What a call touches outside its own locals, in program order: the table fetches, the
  calls of the collaborators and the hardware reads with their coordinates.
\<close>

datatype access =
    Fetch_image_textures int
  | Fetch_image_info int
  | Call_tile_wrap
  | Call_tile_map
  | Call_udim_map
  | Read_2D nat float float

section \<open>Bicubic reconstruction from four bilinear reads\<close>

text \<open>
  The template parameter \<^verbatim>\<open>T\<close> is the type variable \<open>'t\<close>; its \<^verbatim>\<open>operator+\<close>, its
  multiplication by a \<^verbatim>\<open>float\<close> and its read are the first three arguments.  The four
  reads are logged in the order of the source text.
\<close>

definition kernel_image_interp_bicubic ::
  "('t \<Rightarrow> 't \<Rightarrow> 't) \<Rightarrow> (float \<Rightarrow> 't \<Rightarrow> 't) \<Rightarrow> (nat \<Rightarrow> float \<Rightarrow> float \<Rightarrow> 't)
     \<Rightarrow> KernelImageInfo \<Rightarrow> float2 \<Rightarrow> 't \<times> access list" where
  "kernel_image_interp_bicubic add mul read info uv =
     (let tex = data info;
          x = fsub (fmul (f2_x uv) (float_of_uint (width info))) (1 / 2);
          y = fsub (fmul (f2_y uv) (float_of_uint (height info))) (1 / 2);
          px = floorf x;
          py = floorf y;
          fx = fsub x px;
          fy = fsub y py;
          g0x = cubic_g0 fx;
          g1x = cubic_g1 fx;
          x0 = fdiv (fadd (fadd px (cubic_h0 fx)) (1 / 2)) (float_of_uint (width info));
          x1 = fdiv (fadd (fadd px (cubic_h1 fx)) (1 / 2)) (float_of_uint (width info));
          y0 = fdiv (fadd (fadd py (cubic_h0 fy)) (1 / 2)) (float_of_uint (height info));
          y1 = fdiv (fadd (fadd py (cubic_h1 fy)) (1 / 2)) (float_of_uint (height info))
      in (add (mul (cubic_g0 fy) (add (mul g0x (read tex x0 y0)) (mul g1x (read tex x1 y0))))
              (mul (cubic_g1 fy) (add (mul g0x (read tex x0 y1)) (mul g1x (read tex x1 y1)))),
          [Read_2D tex x0 y0, Read_2D tex x1 y0, Read_2D tex x0 y1, Read_2D tex x1 y1]))"

section \<open>The dispatcher\<close>

text \<open>
  Lines 130 to 156 of the source, which the tiled and the direct path both reach: the
  choice of the sampling path from the data type and the interpolation mode of the
  resolved image.
\<close>

definition is_float4_type :: "ImageDataType \<Rightarrow> bool" where
  "is_float4_type texture_type \<longleftrightarrow>
     texture_type = IMAGE_DATA_TYPE_FLOAT4 \<or> texture_type = IMAGE_DATA_TYPE_BYTE4 \<or>
     texture_type = IMAGE_DATA_TYPE_HALF4 \<or> texture_type = IMAGE_DATA_TYPE_USHORT4"

definition is_cubic :: "InterpolationType \<Rightarrow> bool" where
  "is_cubic i \<longleftrightarrow> i = INTERPOLATION_CUBIC \<or> i = INTERPOLATION_SMART"

definition kernel_image_interp_info ::
  "'sd externals \<Rightarrow> KernelImageInfo \<Rightarrow> float2 \<Rightarrow> float4 \<times> access list" where
  "kernel_image_interp_info X info uv =
     (let texture_type = data_type info
      in if is_float4_type texture_type then
           (if is_cubic (interpolation info) then
              kernel_image_interp_bicubic add_float4 mul_float_float4 (read_2D_float4 X) info uv
            else
              (let tex = data info
               in (read_2D_float4 X tex (f2_x uv) (f2_y uv),
                   [Read_2D tex (f2_x uv) (f2_y uv)])))
         else
           (let (f, t) =
                  (if is_cubic (interpolation info) then
                     kernel_image_interp_bicubic fadd fmul (read_2D_float X) info uv
                   else
                     (let tex = data info
                      in (read_2D_float X tex (f2_x uv) (f2_y uv),
                          [Read_2D tex (f2_x uv) (f2_y uv)])))
            in (make_float4 f f f 1, t)))"

definition kernel_image_interp ::
  "'sd externals \<Rightarrow> KernelGlobals \<Rightarrow> 'sd \<Rightarrow> int \<Rightarrow> float2 \<Rightarrow> differential2
     \<Rightarrow> float4 \<times> access list" where
  "kernel_image_interp X kg sd tex_id uv duv =
     (if tex_id = KERNEL_IMAGE_NONE X then (IMAGE_TEXTURE_MISSING_RGBA X, [])
      else
        (let tex = image_textures kg tex_id;
             t0 = [Fetch_image_textures tex_id]
         in if tile_descriptor_offset tex \<noteq> UINT_MAX then
              (let (ok, uv1) = kernel_image_tile_wrap X (extension tex) uv;
                   t1 = t0 @ [Call_tile_wrap]
               in if \<not> ok then (zero_float4, t1)
                  else
                    (let (tile_descriptor, xy) =
                           kernel_image_tile_map X kg sd tex uv1 duv zero_float2;
                         t2 = t1 @ [Call_tile_map]
                     in if \<not> kernel_tile_descriptor_loaded tile_descriptor then
                          ((if tile_descriptor = KERNEL_TILE_LOAD_FAILED
                            then IMAGE_TEXTURE_MISSING_RGBA X else average_color tex), t2)
                        else
                          (let s = kernel_tile_descriptor_slot tile_descriptor;
                               info = image_info kg s;
                               t3 = t2 @ [Fetch_image_info s];
                               uv2 = make_float2 (fdiv (f2_x xy) (float_of_uint (width info)))
                                       (fdiv (f2_y xy) (float_of_uint (height info)));
                               (r, t4) = kernel_image_interp_info X info uv2
                           in (r, t3 @ t4))))
            else if slot tex = KERNEL_IMAGE_NONE X then (IMAGE_TEXTURE_MISSING_RGBA X, t0)
            else
              (let info = image_info kg (slot tex);
                   t1 = t0 @ [Fetch_image_info (slot tex)];
                   (r, t2) = kernel_image_interp_info X info uv
               in (r, t1 @ t2))))"

definition kernel_image_interp_with_udim ::
  "'sd externals \<Rightarrow> KernelGlobals \<Rightarrow> 'sd \<Rightarrow> int \<Rightarrow> float2 \<Rightarrow> differential2
     \<Rightarrow> float4 \<times> access list" where
  "kernel_image_interp_with_udim X kg sd image_id uv duv =
     (let (tex_id, uv1) = kernel_image_udim_map X kg image_id uv;
          t0 = [Call_udim_map]
      in if tex_id = KERNEL_IMAGE_NONE X then (IMAGE_TEXTURE_MISSING_RGBA X, t0)
         else
           (let (r, t) = kernel_image_interp X kg sd tex_id uv1 duv
            in (r, t0 @ t)))"

section \<open>A concrete scene\<close>

text \<open>
  Collaborators and tables on which the theorems below are instantiated: a clipping wrap
  policy, a tile map whose answer is chosen by the texture entry, a UDIM index with one
  known image, and a read that fetches, with bilinear filtering, from a 4 by 4 image
  whose only non-zero texel is the texel (1, 1), of value 1.
\<close>

definition demo_wrap :: "nat \<Rightarrow> float2 \<Rightarrow> bool \<times> float2" where
  "demo_wrap ext uv = (0 \<le> f2_x uv \<and> f2_x uv < 1 \<and> 0 \<le> f2_y uv \<and> f2_y uv < 1, uv)"

definition demo_tile_map ::
  "KernelGlobals \<Rightarrow> unit \<Rightarrow> KernelImageTexture \<Rightarrow> float2 \<Rightarrow> differential2 \<Rightarrow> float2
     \<Rightarrow> KernelTileDescriptor \<times> float2" where
  "demo_tile_map kg sd tex uv duv xy =
     (if tile_descriptor_offset tex = 0 then KERNEL_TILE_LOADED 0
      else if tile_descriptor_offset tex = 1 then KERNEL_TILE_LOAD_FAILED
      else KERNEL_TILE_NOT_LOADED,
      make_float2 (4 * f2_x uv) (4 * f2_y uv))"

definition demo_udim_map :: "KernelGlobals \<Rightarrow> int \<Rightarrow> float2 \<Rightarrow> int \<times> float2" where
  "demo_udim_map kg image_id uv = (if image_id = 1001 then 3 else - 1, uv)"

definition demo_read :: "nat \<Rightarrow> float \<Rightarrow> float \<Rightarrow> float" where
  "demo_read tex x y =
     rnd32 (max 0 (1 - \<bar>4 * x - 3 / 2\<bar>) * max 0 (1 - \<bar>4 * y - 3 / 2\<bar>))"

definition demo_read4 :: "nat \<Rightarrow> float \<Rightarrow> float \<Rightarrow> float4" where
  "demo_read4 tex x y = make_float4 (demo_read tex x y) 0 0 1"

definition demo_externals :: "unit externals" where
  "demo_externals =
     \<lparr>KERNEL_IMAGE_NONE = - 1,
      IMAGE_TEXTURE_MISSING_RGBA = make_float4 1 0 1 1,
      kernel_image_tile_wrap = demo_wrap,
      kernel_image_tile_map = demo_tile_map,
      kernel_image_udim_map = demo_udim_map,
      read_2D_float = demo_read,
      read_2D_float4 = demo_read4\<rparr>"

definition demo_texture :: "int \<Rightarrow> KernelImageTexture" where
  "demo_texture i =
     \<lparr>tile_descriptor_offset = (if 0 \<le> i \<and> i \<le> 2 then nat i else UINT_MAX),
      extension = 0,
      average_color = make_float4 (1 / 2) (1 / 4) (1 / 8) 1,
      slot = (if i = 3 then 0 else if i = 4 then 1 else - 1)\<rparr>"

definition demo_info :: "int \<Rightarrow> KernelImageInfo" where
  "demo_info s =
     \<lparr>data = 7, width = 4, height = 4,
      data_type = (if s = 0 then IMAGE_DATA_TYPE_FLOAT else IMAGE_DATA_TYPE_FLOAT4),
      interpolation = (if s = 0 then INTERPOLATION_LINEAR else INTERPOLATION_CUBIC)\<rparr>"

definition demo_globals :: KernelGlobals where
  "demo_globals = \<lparr>image_textures = demo_texture, image_info = demo_info\<rparr>"

definition demo_duv :: differential2 where
  "demo_duv = make_differential2 zero_float2 zero_float2"

section \<open>Evaluating the arithmetic on numerals\<close>

lemma expo32_unroll:
  "expo32 x = bsearch (Suc (Suc (Suc (Suc (Suc (Suc (Suc (Suc 0)))))))) 0 \<bar>x\<bar>"
  by (simp add: expo32_def eval_nat_numeral)

lemma floor_rat_numeral:
  "\<lfloor>(numeral a :: rat) / numeral b\<rfloor> = numeral a div numeral b"
  "\<lfloor>- ((numeral a :: rat) / numeral b)\<rfloor> = - numeral a div numeral b"
  "\<lfloor>(1 :: rat) / numeral b\<rfloor> = 1 div numeral b"
  "\<lfloor>- ((1 :: rat) / numeral b)\<rfloor> = - 1 div numeral b"
  using floor_divide_of_int_eq [of "numeral a" "numeral b", where ?'a = rat]
    floor_divide_of_int_eq [of "- numeral a" "numeral b", where ?'a = rat]
    floor_divide_of_int_eq [of 1 "numeral b", where ?'a = rat]
    floor_divide_of_int_eq [of "- 1" "numeral b", where ?'a = rat]
  by simp_all

lemmas rnd_eval = rnd32_def ulp32_def expo32_unroll round_even_def Let_def floor_rat_numeral

lemmas float_eval = fadd_def fsub_def fmul_def fdiv_def floorf_def float_of_int_def
  float_of_uint_def

lemmas demo_defs = demo_externals_def demo_globals_def demo_texture_def demo_info_def
  demo_wrap_def demo_tile_map_def demo_udim_map_def demo_duv_def UINT_MAX_def

section \<open>The dispatcher: paths and fallbacks\<close>

text \<open>
  C5.  Called with the reference \<open>KERNEL_IMAGE_NONE\<close>, the dispatcher returns the
  missing-texture colour for every coordinate and differential, and touches nothing:
  no table fetch, no wrap, no tile map, no read.
\<close>

theorem kernel_image_interp_none:
  "kernel_image_interp X kg sd (KERNEL_IMAGE_NONE X) uv duv = (IMAGE_TEXTURE_MISSING_RGBA X, [])"
  by (simp add: kernel_image_interp_def)

lemma kernel_image_interp_info_scalar:
  assumes "\<not> is_float4_type (data_type info)"
  shows "fst (kernel_image_interp_info X info uv) =
           (let f = (if is_cubic (interpolation info)
                     then fst (kernel_image_interp_bicubic fadd fmul (read_2D_float X) info uv)
                     else read_2D_float X (data info) (f2_x uv) (f2_y uv))
            in make_float4 f f f 1)"
proof (cases "is_cubic (interpolation info)")
  case True
  with assms show ?thesis
    by (simp add: kernel_image_interp_info_def split_beta Let_def)
next
  case False
  with assms show ?thesis
    by (simp add: kernel_image_interp_info_def split_beta Let_def)
qed

lemma kernel_image_interp_direct:
  assumes "tex_id \<noteq> KERNEL_IMAGE_NONE X"
    and "tile_descriptor_offset (image_textures kg tex_id) = UINT_MAX"
    and "slot (image_textures kg tex_id) \<noteq> KERNEL_IMAGE_NONE X"
  shows "kernel_image_interp X kg sd tex_id uv duv =
           (fst (kernel_image_interp_info X (image_info kg (slot (image_textures kg tex_id))) uv),
            [Fetch_image_textures tex_id, Fetch_image_info (slot (image_textures kg tex_id))] @
            snd (kernel_image_interp_info X (image_info kg (slot (image_textures kg tex_id))) uv))"
  using assms by (simp add: kernel_image_interp_def Let_def split_beta)

lemma kernel_image_interp_tiled:
  assumes "tex_id \<noteq> KERNEL_IMAGE_NONE X"
    and "tile_descriptor_offset (image_textures kg tex_id) \<noteq> UINT_MAX"
    and "kernel_image_tile_wrap X (extension (image_textures kg tex_id)) uv = (ok, uv1)"
    and "kernel_image_tile_map X kg sd (image_textures kg tex_id) uv1 duv zero_float2 =
           (tile_descriptor, xy)"
  shows "kernel_image_interp X kg sd tex_id uv duv =
           (if \<not> ok then (zero_float4, [Fetch_image_textures tex_id, Call_tile_wrap])
            else if \<not> kernel_tile_descriptor_loaded tile_descriptor then
              ((if tile_descriptor = KERNEL_TILE_LOAD_FAILED then IMAGE_TEXTURE_MISSING_RGBA X
                else average_color (image_textures kg tex_id)),
               [Fetch_image_textures tex_id, Call_tile_wrap, Call_tile_map])
            else
              (let s = kernel_tile_descriptor_slot tile_descriptor;
                   info = image_info kg s;
                   uv2 = make_float2 (fdiv (f2_x xy) (float_of_uint (width info)))
                           (fdiv (f2_y xy) (float_of_uint (height info)))
               in (fst (kernel_image_interp_info X info uv2),
                   [Fetch_image_textures tex_id, Call_tile_wrap, Call_tile_map,
                    Fetch_image_info s] @ snd (kernel_image_interp_info X info uv2))))"
  using assms by (simp add: kernel_image_interp_def Let_def split_beta)

lemma demo_info_read:
  "kernel_image_interp_info demo_externals (demo_info 0) (make_float2 (3 / 8) (3 / 8)) =
     (make_float4 1 1 1 1, [Read_2D 7 (3 / 8) (3 / 8)])"
  by (simp add: kernel_image_interp_info_def is_float4_type_def is_cubic_def demo_defs
      demo_read_def rnd_eval)

lemma demo_renormalize: "fdiv (3 / 2) (float_of_uint 4) = 3 / 8"
  by (simp add: float_eval rnd_eval)

text \<open>
  C2.  On a tiled texture entry (\<open>tile_descriptor_offset\<close> is not \<open>UINT_MAX\<close>) and a
  coordinate the wrap policy accepts, the result is decided by the descriptor the tile
  map returns: \<open>KERNEL_TILE_LOAD_FAILED\<close> gives the missing-texture colour,
  \<open>KERNEL_TILE_NOT_LOADED\<close> gives the average colour stored in the entry, and
  \<open>KERNEL_TILE_LOADED s\<close> fetches the image descriptor at slot \<open>s\<close>, divides the tile-local
  coordinate \<open>xy\<close> by that descriptor's width and height and samples by the format
  selection.  The three cases are the three constructors, so no two of them share a path.
\<close>

theorem kernel_image_interp_tile_states:
  assumes "tex_id \<noteq> KERNEL_IMAGE_NONE X"
    and "tex = image_textures kg tex_id"
    and "tile_descriptor_offset tex \<noteq> UINT_MAX"
    and "kernel_image_tile_wrap X (extension tex) uv = (True, uv1)"
    and "kernel_image_tile_map X kg sd tex uv1 duv zero_float2 = (tile_descriptor, xy)"
  shows "kernel_image_interp X kg sd tex_id uv duv =
           (case tile_descriptor of
              KERNEL_TILE_LOAD_FAILED \<Rightarrow>
                (IMAGE_TEXTURE_MISSING_RGBA X,
                 [Fetch_image_textures tex_id, Call_tile_wrap, Call_tile_map])
            | KERNEL_TILE_NOT_LOADED \<Rightarrow>
                (average_color tex,
                 [Fetch_image_textures tex_id, Call_tile_wrap, Call_tile_map])
            | KERNEL_TILE_LOADED s \<Rightarrow>
                (let info = image_info kg s;
                     uv2 = make_float2 (fdiv (f2_x xy) (float_of_uint (width info)))
                             (fdiv (f2_y xy) (float_of_uint (height info)))
                 in (fst (kernel_image_interp_info X info uv2),
                     [Fetch_image_textures tex_id, Call_tile_wrap, Call_tile_map,
                      Fetch_image_info s] @ snd (kernel_image_interp_info X info uv2))))"
proof -
  note t = kernel_image_interp_tiled [OF assms(1) assms(3) [unfolded assms(2)]
      assms(4) [unfolded assms(2)] assms(5) [unfolded assms(2)]]
  show ?thesis
    by (cases tile_descriptor) (simp_all add: t assms(2) Let_def)
qed

theorem kernel_image_interp_tile_states_witness:
  "kernel_image_interp demo_externals demo_globals () 1 (make_float2 (3 / 8) (3 / 8)) demo_duv =
     (make_float4 1 0 1 1, [Fetch_image_textures 1, Call_tile_wrap, Call_tile_map]) \<and>
   kernel_image_interp demo_externals demo_globals () 2 (make_float2 (3 / 8) (3 / 8)) demo_duv =
     (make_float4 (1 / 2) (1 / 4) (1 / 8) 1,
      [Fetch_image_textures 2, Call_tile_wrap, Call_tile_map]) \<and>
   kernel_image_interp demo_externals demo_globals () 0 (make_float2 (3 / 8) (3 / 8)) demo_duv =
     (make_float4 1 1 1 1,
      [Fetch_image_textures 0, Call_tile_wrap, Call_tile_map, Fetch_image_info 0,
       Read_2D 7 (3 / 8) (3 / 8)])"
proof -
  let ?uv = "make_float2 (3 / 8) (3 / 8)"
  have none: "(1::int) \<noteq> KERNEL_IMAGE_NONE demo_externals"
    "(2::int) \<noteq> KERNEL_IMAGE_NONE demo_externals" "(0::int) \<noteq> KERNEL_IMAGE_NONE demo_externals"
    by (simp_all add: demo_defs)
  have tiled: "tile_descriptor_offset (demo_texture 1) \<noteq> UINT_MAX"
    "tile_descriptor_offset (demo_texture 2) \<noteq> UINT_MAX"
    "tile_descriptor_offset (demo_texture 0) \<noteq> UINT_MAX"
    by (simp_all add: demo_defs)
  have tex: "demo_texture i = image_textures demo_globals i" for i
    by (simp add: demo_globals_def)
  have wrap: "kernel_image_tile_wrap demo_externals (extension (demo_texture i)) ?uv = (True, ?uv)"
    for i by (simp add: demo_defs)
  have failed: "kernel_image_tile_map demo_externals demo_globals () (demo_texture 1) ?uv demo_duv
      zero_float2 = (KERNEL_TILE_LOAD_FAILED, make_float2 (3 / 2) (3 / 2))"
    by (simp add: demo_defs)
  have not_loaded: "kernel_image_tile_map demo_externals demo_globals () (demo_texture 2) ?uv
      demo_duv zero_float2 = (KERNEL_TILE_NOT_LOADED, make_float2 (3 / 2) (3 / 2))"
    by (simp add: demo_defs)
  have loaded: "kernel_image_tile_map demo_externals demo_globals () (demo_texture 0) ?uv
      demo_duv zero_float2 = (KERNEL_TILE_LOADED 0, make_float2 (3 / 2) (3 / 2))"
    by (simp add: demo_defs)
  have info: "image_info demo_globals 0 = demo_info 0" "width (demo_info 0) = 4"
    "height (demo_info 0) = 4"
    by (simp_all add: demo_defs)
  show ?thesis
    using kernel_image_interp_tile_states [OF none(1) tex tiled(1) wrap failed]
      kernel_image_interp_tile_states [OF none(2) tex tiled(2) wrap not_loaded]
      kernel_image_interp_tile_states [OF none(3) tex tiled(3) wrap loaded]
    by (simp add: info demo_renormalize demo_info_read)
      (simp add: demo_defs)
qed

text \<open>
  C3.  On a tiled texture entry and a coordinate the wrap policy rejects, the dispatcher
  returns \<open>zero_float4\<close>, transparent black, after the texture fetch and the wrap call
  alone: no tile map, no image-info fetch, no read.  The value of the macro
  \<open>IMAGE_TEXTURE_MISSING_RGBA\<close> is a parameter here; whenever it is not all zero, the
  result differs from it.
\<close>

theorem kernel_image_interp_wrap_rejected:
  assumes "tex_id \<noteq> KERNEL_IMAGE_NONE X"
    and "tile_descriptor_offset (image_textures kg tex_id) \<noteq> UINT_MAX"
    and "\<not> fst (kernel_image_tile_wrap X (extension (image_textures kg tex_id)) uv)"
  shows "kernel_image_interp X kg sd tex_id uv duv =
           (zero_float4, [Fetch_image_textures tex_id, Call_tile_wrap]) \<and>
         (IMAGE_TEXTURE_MISSING_RGBA X \<noteq> zero_float4 \<longrightarrow>
            fst (kernel_image_interp X kg sd tex_id uv duv) \<noteq> IMAGE_TEXTURE_MISSING_RGBA X)"
proof -
  obtain ok uv1 where w: "kernel_image_tile_wrap X (extension (image_textures kg tex_id)) uv = (ok, uv1)"
    by (cases "kernel_image_tile_wrap X (extension (image_textures kg tex_id)) uv")
  obtain td xy where m:
    "kernel_image_tile_map X kg sd (image_textures kg tex_id) uv1 duv zero_float2 = (td, xy)"
    by (cases "kernel_image_tile_map X kg sd (image_textures kg tex_id) uv1 duv zero_float2")
  from w assms(3) have "\<not> ok" by simp
  then have "kernel_image_interp X kg sd tex_id uv duv =
      (zero_float4, [Fetch_image_textures tex_id, Call_tile_wrap])"
    using kernel_image_interp_tiled [OF assms(1) assms(2) w m] by simp
  then show ?thesis by auto
qed

theorem kernel_image_interp_wrap_rejected_witness:
  "(0::int) \<noteq> KERNEL_IMAGE_NONE demo_externals \<and>
   tile_descriptor_offset (image_textures demo_globals 0) \<noteq> UINT_MAX \<and>
   \<not> fst (kernel_image_tile_wrap demo_externals (extension (image_textures demo_globals 0))
            (make_float2 2 (1 / 2))) \<and>
   IMAGE_TEXTURE_MISSING_RGBA demo_externals \<noteq> zero_float4 \<and>
   kernel_image_interp demo_externals demo_globals () 0 (make_float2 2 (1 / 2)) demo_duv =
     (make_float4 0 0 0 0, [Fetch_image_textures 0, Call_tile_wrap]) \<and>
   fst (kernel_image_interp demo_externals demo_globals () 0 (make_float2 2 (1 / 2)) demo_duv) \<noteq>
     IMAGE_TEXTURE_MISSING_RGBA demo_externals"
proof -
  have h: "(0::int) \<noteq> KERNEL_IMAGE_NONE demo_externals"
    "tile_descriptor_offset (image_textures demo_globals 0) \<noteq> UINT_MAX"
    "\<not> fst (kernel_image_tile_wrap demo_externals (extension (image_textures demo_globals 0))
            (make_float2 2 (1 / 2)))"
    "IMAGE_TEXTURE_MISSING_RGBA demo_externals \<noteq> zero_float4"
    by (simp_all add: demo_defs zero_float4_def)
  from kernel_image_interp_wrap_rejected [OF h(1) h(2) h(3), of "()" demo_duv] h
  show ?thesis by (simp add: zero_float4_def)
qed

text \<open>
  C4.  When the image descriptor the dispatcher resolves (through the direct slot, or
  through a loaded tile) has a 1-channel data type, the dispatcher computes one scalar
  \<open>f\<close>, by the bicubic reconstruction when the interpolation is cubic or smart and by
  one direct read otherwise, and returns the colour \<open>(f, f, f, 1)\<close>.
\<close>

theorem kernel_image_interp_broadcast:
  assumes "tex_id \<noteq> KERNEL_IMAGE_NONE X"
    and "tex = image_textures kg tex_id"
    and "(tile_descriptor_offset tex = UINT_MAX \<and> slot tex \<noteq> KERNEL_IMAGE_NONE X \<and>
          info = image_info kg (slot tex) \<and> uv' = uv) \<or>
         (tile_descriptor_offset tex \<noteq> UINT_MAX \<and>
          kernel_image_tile_wrap X (extension tex) uv = (True, uv1) \<and>
          kernel_image_tile_map X kg sd tex uv1 duv zero_float2 = (KERNEL_TILE_LOADED s, xy) \<and>
          info = image_info kg s \<and>
          uv' = make_float2 (fdiv (f2_x xy) (float_of_uint (width info)))
                  (fdiv (f2_y xy) (float_of_uint (height info))))"
    and "data_type info \<in> {IMAGE_DATA_TYPE_FLOAT, IMAGE_DATA_TYPE_BYTE, IMAGE_DATA_TYPE_HALF,
           IMAGE_DATA_TYPE_USHORT}"
    and "f = (if interpolation info = INTERPOLATION_CUBIC \<or> interpolation info = INTERPOLATION_SMART
              then fst (kernel_image_interp_bicubic fadd fmul (read_2D_float X) info uv')
              else read_2D_float X (data info) (f2_x uv') (f2_y uv'))"
  shows "fst (kernel_image_interp X kg sd tex_id uv duv) = make_float4 f f f 1"
proof -
  from assms(4) have scalar: "\<not> is_float4_type (data_type info)"
    by (auto simp add: is_float4_type_def)
  have sel: "fst (kernel_image_interp_info X info uv') = make_float4 f f f 1"
    using kernel_image_interp_info_scalar [OF scalar, of X uv'] assms(5)
    by (simp add: is_cubic_def Let_def)
  from assms(3) show ?thesis
  proof
    assume d: "tile_descriptor_offset tex = UINT_MAX \<and> slot tex \<noteq> KERNEL_IMAGE_NONE X \<and>
          info = image_info kg (slot tex) \<and> uv' = uv"
    then show ?thesis
      using kernel_image_interp_direct [of tex_id X kg sd uv duv] assms(1,2) sel by simp
  next
    assume t: "tile_descriptor_offset tex \<noteq> UINT_MAX \<and>
          kernel_image_tile_wrap X (extension tex) uv = (True, uv1) \<and>
          kernel_image_tile_map X kg sd tex uv1 duv zero_float2 = (KERNEL_TILE_LOADED s, xy) \<and>
          info = image_info kg s \<and>
          uv' = make_float2 (fdiv (f2_x xy) (float_of_uint (width info)))
                  (fdiv (f2_y xy) (float_of_uint (height info)))"
    then show ?thesis
      using kernel_image_interp_tiled [of tex_id X kg uv True uv1 sd duv "KERNEL_TILE_LOADED s" xy]
        assms(1,2) sel by (simp add: Let_def)
  qed
qed

theorem kernel_image_interp_broadcast_witness:
  "fst (kernel_image_interp demo_externals demo_globals () 3 (make_float2 (3 / 8) (3 / 8)) demo_duv) =
     make_float4 1 1 1 1 \<and>
   read_2D_float demo_externals (data (image_info demo_globals 0)) (3 / 8) (3 / 8) = 1"
proof -
  have a: "(3::int) \<noteq> KERNEL_IMAGE_NONE demo_externals"
    by (simp add: demo_defs)
  have b: "tile_descriptor_offset (demo_texture 3) = UINT_MAX \<and>
      slot (demo_texture 3) \<noteq> KERNEL_IMAGE_NONE demo_externals \<and>
      demo_info 0 = image_info demo_globals (slot (demo_texture 3)) \<and>
      make_float2 (3 / 8) (3 / 8) = make_float2 (3 / 8) (3 / 8) \<or>
      tile_descriptor_offset (demo_texture 3) \<noteq> UINT_MAX \<and>
      kernel_image_tile_wrap demo_externals (extension (demo_texture 3))
        (make_float2 (3 / 8) (3 / 8)) = (True, zero_float2) \<and>
      kernel_image_tile_map demo_externals demo_globals () (demo_texture 3) zero_float2 demo_duv
        zero_float2 = (KERNEL_TILE_LOADED 0, zero_float2) \<and>
      demo_info 0 = image_info demo_globals 0 \<and>
      make_float2 (3 / 8) (3 / 8) =
        make_float2 (fdiv (f2_x zero_float2) (float_of_uint (width (demo_info 0))))
          (fdiv (f2_y zero_float2) (float_of_uint (height (demo_info 0))))"
    by (simp add: demo_defs)
  have c: "data_type (demo_info 0) \<in> {IMAGE_DATA_TYPE_FLOAT, IMAGE_DATA_TYPE_BYTE,
      IMAGE_DATA_TYPE_HALF, IMAGE_DATA_TYPE_USHORT}"
    by (simp add: demo_defs)
  have d: "read_2D_float demo_externals (data (demo_info 0)) (3 / 8) (3 / 8) = 1"
    by (simp add: demo_defs demo_read_def rnd_eval)
  have e: "(1::rat) =
      (if interpolation (demo_info 0) = INTERPOLATION_CUBIC \<or>
          interpolation (demo_info 0) = INTERPOLATION_SMART
       then fst (kernel_image_interp_bicubic fadd fmul (read_2D_float demo_externals)
                   (demo_info 0) (make_float2 (3 / 8) (3 / 8)))
       else read_2D_float demo_externals (data (demo_info 0))
              (f2_x (make_float2 (3 / 8) (3 / 8))) (f2_y (make_float2 (3 / 8) (3 / 8))))"
    using d by (simp add: demo_info_def)
  have tex: "demo_texture 3 = image_textures demo_globals 3"
    by (simp add: demo_globals_def)
  from kernel_image_interp_broadcast [OF a tex b c e] d
  show ?thesis by (simp add: demo_globals_def)
qed

text \<open>
  C8.  When the UDIM index answers \<open>KERNEL_IMAGE_NONE\<close>, the UDIM entry point returns the
  missing-texture colour and has touched nothing but the index: no texture table, no
  tile map, no image-info table.  Otherwise its result is the result of
  \<open>kernel_image_interp\<close> on the mapped texture id, at the coordinate the index left.
\<close>

theorem kernel_image_interp_with_udim_cases:
  "(fst (kernel_image_udim_map X kg image_id uv) = KERNEL_IMAGE_NONE X \<longrightarrow>
      kernel_image_interp_with_udim X kg sd image_id uv duv =
        (IMAGE_TEXTURE_MISSING_RGBA X, [Call_udim_map])) \<and>
   (fst (kernel_image_udim_map X kg image_id uv) \<noteq> KERNEL_IMAGE_NONE X \<longrightarrow>
      kernel_image_interp_with_udim X kg sd image_id uv duv =
        (fst (kernel_image_interp X kg sd (fst (kernel_image_udim_map X kg image_id uv))
                (snd (kernel_image_udim_map X kg image_id uv)) duv),
         Call_udim_map #
         snd (kernel_image_interp X kg sd (fst (kernel_image_udim_map X kg image_id uv))
                (snd (kernel_image_udim_map X kg image_id uv)) duv)))"
  by (simp add: kernel_image_interp_with_udim_def Let_def split_beta)

theorem kernel_image_interp_with_udim_cases_witness:
  "fst (kernel_image_udim_map demo_externals demo_globals 7 (make_float2 (3 / 8) (3 / 8))) =
     KERNEL_IMAGE_NONE demo_externals \<and>
   kernel_image_interp_with_udim demo_externals demo_globals () 7 (make_float2 (3 / 8) (3 / 8))
     demo_duv = (make_float4 1 0 1 1, [Call_udim_map]) \<and>
   fst (kernel_image_udim_map demo_externals demo_globals 1001 (make_float2 (3 / 8) (3 / 8))) \<noteq>
     KERNEL_IMAGE_NONE demo_externals \<and>
   kernel_image_interp_with_udim demo_externals demo_globals () 1001 (make_float2 (3 / 8) (3 / 8))
     demo_duv =
     (fst (kernel_image_interp demo_externals demo_globals () 3 (make_float2 (3 / 8) (3 / 8))
             demo_duv),
      Call_udim_map #
      snd (kernel_image_interp demo_externals demo_globals () 3 (make_float2 (3 / 8) (3 / 8))
             demo_duv))"
  using kernel_image_interp_with_udim_cases [of demo_externals demo_globals 7
      "make_float2 (3 / 8) (3 / 8)" "()" demo_duv]
    kernel_image_interp_with_udim_cases [of demo_externals demo_globals 1001
      "make_float2 (3 / 8) (3 / 8)" "()" demo_duv]
  by (simp add: demo_externals_def demo_udim_map_def)

section \<open>Properties of the rounding\<close>

text \<open>
  The binary search finds the exponent; rounding errs by at most half a spacing; the
  integers up to \<open>2 ^ 24\<close> in magnitude are binary32 values, binary32 values of magnitude
  \<open>2 ^ 24\<close> or more are integers, and the difference of a binary32 value and an integer is
  again one when it is no larger than the value and at most 1 in magnitude.
\<close>

lemma bsearch_spec:
  assumes "k = 0 \<or> 2 ^ k \<le> a * 2 ^ 126" and "a * 2 ^ 126 < 2 ^ (k + 2 ^ n)"
  shows "(bsearch n k a = 0 \<or> 2 ^ bsearch n k a \<le> a * 2 ^ 126) \<and>
         a * 2 ^ 126 < 2 ^ (bsearch n k a + 1) \<and> bsearch n k a < k + 2 ^ n"
  using assms
proof (induction n arbitrary: k)
  case 0
  then show ?case by simp
next
  case (Suc n)
  define m :: nat where "m = 2 ^ n"
  define b where "b = a * 2 ^ 126"
  have two: "(2::nat) ^ Suc n = m + m"
    by (simp add: m_def)
  have m: "0 < m" by (simp add: m_def)
  note IH = Suc.IH [folded m_def b_def]
  note prems = Suc.prems [unfolded two, folded b_def]
  show ?case
  proof (cases "2 ^ (k + m) \<le> b")
    case True
    then have r: "bsearch (Suc n) k a = bsearch n (k + m) a"
      by (simp add: m_def b_def)
    have "b < 2 ^ (k + m + m)"
      using prems(2) by (simp only: add.assoc)
    from IH [of "k + m", OF disjI2 [OF True] this]
    show ?thesis
      unfolding r two b_def [symmetric] by (simp only: add.assoc) 
  next
    case False
    then have r: "bsearch (Suc n) k a = bsearch n k a"
      by (simp add: m_def b_def)
    from False have "b < 2 ^ (k + m)" by simp
    from IH [of k, OF prems(1) this] m
    show ?thesis
      unfolding r two b_def [symmetric] by auto
  qed
qed

lemma expo32_spec:
  assumes "\<bar>x\<bar> < 2 ^ 130"
  shows "(expo32 x = 0 \<or> 2 ^ expo32 x \<le> \<bar>x\<bar> * 2 ^ 126) \<and>
         \<bar>x\<bar> * 2 ^ 126 < 2 ^ (expo32 x + 1) \<and> expo32 x < 256"
proof -
  have "\<bar>x\<bar> * 2 ^ 126 < 2 ^ 130 * 2 ^ 126"
    using assms by (rule mult_strict_right_mono) simp
  also have "(2::rat) ^ 130 * 2 ^ 126 = 2 ^ (0 + 2 ^ 8)"
    by simp
  finally have "\<bar>x\<bar> * 2 ^ 126 < 2 ^ (0 + 2 ^ 8)" .
  from bsearch_spec [of 0 "\<bar>x\<bar>" 8, OF _ this] show ?thesis
    by (simp add: expo32_def)
qed

lemma expo32_range:
  fixes x :: rat
  assumes "\<bar>x\<bar> * 2 ^ 126 < 2 ^ (e + 1)" and "e < 256"
  shows "\<bar>x\<bar> < 2 ^ 130"
proof -
  have "e + 1 \<le> 256" using assms(2) by simp
  then have "(2::rat) ^ (e + 1) \<le> 2 ^ 256"
    by (rule power_increasing) simp
  with assms(1) have "\<bar>x\<bar> * 2 ^ 126 < 2 ^ 256"
    by (rule less_le_trans)
  also have "(2::rat) ^ 256 = 2 ^ 130 * 2 ^ 126" by simp
  finally show ?thesis
    by (rule mult_right_less_imp_less) simp
qed

lemma expo32_eqI:
  assumes "e = 0 \<or> 2 ^ e \<le> \<bar>x\<bar> * 2 ^ 126" and "\<bar>x\<bar> * 2 ^ 126 < 2 ^ (e + 1)" and "e < 256"
  shows "expo32 x = e"
proof -
  note s = expo32_spec [OF expo32_range [OF assms(2) assms(3)]]
  have "expo32 x \<le> e"
  proof (rule ccontr)
    assume "\<not> expo32 x \<le> e"
    then have le: "e + 1 \<le> expo32 x" by simp
    then have "(2::rat) ^ (e + 1) \<le> 2 ^ expo32 x"
      by (rule power_increasing) simp
    moreover have "2 ^ expo32 x \<le> \<bar>x\<bar> * 2 ^ 126"
      using s le by auto
    ultimately show False using assms(2) by simp
  qed
  moreover have "e \<le> expo32 x"
  proof (rule ccontr)
    assume "\<not> e \<le> expo32 x"
    then have le: "expo32 x + 1 \<le> e" by simp
    then have "(2::rat) ^ (expo32 x + 1) \<le> 2 ^ e"
      by (rule power_increasing) simp
    moreover have "2 ^ e \<le> \<bar>x\<bar> * 2 ^ 126"
      using assms(1) le by auto
    ultimately show False using s by simp
  qed
  ultimately show ?thesis by simp
qed

lemma expo32_mono:
  assumes "\<bar>a\<bar> \<le> \<bar>b\<bar>" and "\<bar>b\<bar> < 2 ^ 130"
  shows "expo32 a \<le> expo32 b"
proof (rule ccontr)
  assume "\<not> expo32 a \<le> expo32 b"
  then have lt: "expo32 b + 1 \<le> expo32 a" by simp
  from assms have "\<bar>a\<bar> < 2 ^ 130" by simp
  note sa = expo32_spec [OF this] and sb = expo32_spec [OF assms(2)]
  have "(2::rat) ^ (expo32 b + 1) \<le> 2 ^ expo32 a"
    using lt by (rule power_increasing) simp
  also have "\<dots> \<le> \<bar>a\<bar> * 2 ^ 126" using sa lt by auto
  also have "\<dots> \<le> \<bar>b\<bar> * 2 ^ 126"
    using assms(1) by (rule mult_right_mono) simp
  finally show False using sb by simp
qed

lemma round_even_error: "\<bar>of_int (round_even r) - r\<bar> \<le> 1 / 2"
proof -
  define d where "d = r - of_int \<lfloor>r\<rfloor>"
  have d: "0 \<le> d" "d < 1"
    unfolding d_def by linarith+
  have r: "r = of_int \<lfloor>r\<rfloor> + d"
    by (simp add: d_def)
  consider "d < 1 / 2" | "1 / 2 < d" | "d = 1 / 2" by linarith
  then show ?thesis
  proof cases
    case 1
    then have "round_even r = \<lfloor>r\<rfloor>"
      by (simp add: round_even_def Let_def d_def)
    then show ?thesis using 1 d by (simp add: d_def)
  next
    case 2
    then have "round_even r = \<lfloor>r\<rfloor> + 1"
      by (simp add: round_even_def Let_def d_def)
    then show ?thesis using 2 d by (simp add: d_def)
  next
    case 3
    then have "round_even r = \<lfloor>r\<rfloor> \<or> round_even r = \<lfloor>r\<rfloor> + 1"
      by (simp add: round_even_def Let_def d_def)
    then show ?thesis using 3 by (auto simp add: d_def)
  qed
qed

lemma round_even_of_int [simp]: "round_even (of_int n) = n"
  by (simp add: round_even_def)

lemma round_even_nonneg: "0 \<le> r \<Longrightarrow> 0 \<le> round_even r"
  by (auto simp add: round_even_def Let_def)

lemma round_even_le:
  assumes "r \<le> of_int n"
  shows "round_even r \<le> n"
proof (cases "r = of_int n")
  case True
  then show ?thesis by simp
next
  case False
  with assms have "r < of_int n" by simp
  then have "\<lfloor>r\<rfloor> < n" by (simp add: floor_less_iff)
  then have "\<lfloor>r\<rfloor> + 1 \<le> n" by simp
  then show ?thesis by (auto simp add: round_even_def Let_def)
qed

lemma ulp32_pos: "0 < ulp32 x"
  by (simp add: ulp32_def)

lemma rnd32_error: "\<bar>rnd32 x - x\<bar> \<le> ulp32 x / 2"
proof -
  let ?m = "of_int (round_even (x / ulp32 x)) :: rat"
  have "rnd32 x - x = (?m - x / ulp32 x) * ulp32 x"
    using ulp32_pos [of x] by (simp add: rnd32_def field_simps)
  then have "\<bar>rnd32 x - x\<bar> = \<bar>?m - x / ulp32 x\<bar> * ulp32 x"
    using ulp32_pos [of x] by (simp add: abs_mult)
  also have "\<dots> \<le> 1 / 2 * ulp32 x"
    using round_even_error [of "x / ulp32 x"] ulp32_pos [of x]
    by (intro mult_right_mono) simp_all
  finally show ?thesis by simp
qed

lemma rnd32_fixI:
  assumes "x = of_int n * ulp32 x"
  shows "rnd32 x = x"
proof -
  have "x / ulp32 x = of_int n * ulp32 x / ulp32 x"
    using assms by simp
  also have "\<dots> = of_int n"
    using ulp32_pos [of x] by simp
  finally have "round_even (x / ulp32 x) = n" by simp
  then show ?thesis
    using assms by (simp add: rnd32_def)
qed

lemma rnd32_zero [simp]: "rnd32 0 = 0"
  by (simp add: rnd32_def round_even_def)

lemma rnd32_sub_int:
  assumes fixed: "rnd32 x = x"
    and le: "expo32 (x - of_int i) \<le> expo32 x"
    and small: "expo32 (x - of_int i) \<le> 149"
  shows "rnd32 (x - of_int i) = x - of_int i"
proof -
  define ev where "ev = expo32 (x - of_int i)"
  define ex where "ex = expo32 x"
  define P :: rat where "P = 2 ^ 149"
  define E :: rat where "E = 2 ^ ev"
  define nx where "nx = round_even (x / ulp32 x)"
  define a :: int where "a = 2 ^ (ex - ev)"
  define c :: int where "c = 2 ^ (149 - ev)"
  have pos: "0 < P" "0 < E"
    by (simp_all add: P_def E_def)
  have "(2::rat) ^ ex = 2 ^ (ex - ev) * 2 ^ ev"
    using le unfolding ev_def ex_def by (simp add: power_add [symmetric])
  then have ex: "(2::rat) ^ ex = of_int a * E"
    by (simp add: a_def E_def)
  have "(2::rat) ^ 149 = 2 ^ (149 - ev) * 2 ^ ev"
    using small unfolding ev_def by (simp only: power_add [symmetric] le_add_diff_inverse2)
  then have P: "P = of_int c * E"
    by (simp add: c_def E_def P_def)
  have "x = of_int nx * ulp32 x"
    using fixed by (simp add: rnd32_def nx_def)
  then have x: "x = of_int nx * (of_int a * E) / P"
    unfolding ulp32_def ex_def [symmetric] P_def [symmetric] ex by simp
  have i: "of_int i = of_int i * (of_int c * E) / P"
    using pos by (simp add: P [symmetric])
  have "x - of_int i = of_int (nx * a - i * c) * (E / P)"
    by (subst x, subst i) (simp add: algebra_simps diff_divide_distrib)
  then have "x - of_int i = of_int (nx * a - i * c) * ulp32 (x - of_int i)"
    by (simp add: ulp32_def ev_def [symmetric] E_def P_def)
  then show ?thesis by (rule rnd32_fixI)
qed

lemma expo32_one: "expo32 1 = 126"
  by (rule expo32_eqI) simp_all

lemma expo32_le_one:
  assumes "\<bar>v\<bar> \<le> 1"
  shows "expo32 v \<le> 126"
  using expo32_mono [of v 1] assms by (simp add: expo32_one)

lemma rnd32_unit_interval:
  assumes "0 \<le> v" and "v \<le> 1"
  shows "0 \<le> rnd32 v \<and> rnd32 v \<le> 1"
proof -
  define ev where "ev = expo32 v"
  define N :: int where "N = 2 ^ (149 - ev)"
  have ev: "ev \<le> 149"
    using expo32_le_one [of v] assms by (simp add: ev_def)
  have "(2::rat) ^ 149 = 2 ^ (149 - ev) * 2 ^ ev"
    using ev by (simp only: power_add [symmetric] le_add_diff_inverse2)
  then have N: "of_int N * ulp32 v = 1"
    by (simp add: N_def ulp32_def ev_def)
  have "v / ulp32 v \<le> 1 / ulp32 v"
    using assms(2) ulp32_pos [of v] by (simp add: divide_right_mono)
  also have "1 / ulp32 v = of_int N"
    using N ulp32_pos [of v] by (simp add: field_simps)
  finally have "round_even (v / ulp32 v) \<le> N"
    by (rule round_even_le)
  then have "(of_int (round_even (v / ulp32 v)) :: rat) \<le> of_int N"
    by simp
  then have "rnd32 v \<le> of_int N * ulp32 v"
    unfolding rnd32_def using ulp32_pos [of v] by (intro mult_right_mono) simp_all
  moreover have "0 \<le> rnd32 v"
    unfolding rnd32_def using ulp32_pos [of v] assms(1)
    by (intro mult_nonneg_nonneg) (simp_all add: round_even_nonneg)
  ultimately show ?thesis using N by simp
qed

lemma rnd32_int_small:
  assumes "expo32 (of_int i) \<le> 149"
  shows "rnd32 (of_int i) = of_int i"
proof -
  define e where "e = expo32 (of_int i)"
  have "(2::rat) ^ 149 = 2 ^ (149 - e) * 2 ^ e"
    using assms unfolding e_def by (simp only: power_add [symmetric] le_add_diff_inverse2)
  then have "of_int i = of_int (i * 2 ^ (149 - e)) * ulp32 (of_int i)"
    by (simp add: ulp32_def e_def)
  then show ?thesis by (rule rnd32_fixI)
qed

lemma expo32_2_24: "expo32 (2 ^ 24) = 150"
  by (rule expo32_eqI) simp_all

lemma rnd32_2_24: "rnd32 16777216 = 16777216" "rnd32 (- 16777216) = - 16777216"
  by (simp_all add: rnd_eval)

lemma rnd32_of_int:
  assumes "\<bar>n\<bar> \<le> 2 ^ 24"
  shows "rnd32 (of_int n) = of_int n"
proof (cases "\<bar>n\<bar> = 2 ^ 24")
  case True
  then have "\<bar>n\<bar> = 16777216" by simp
  then have "n = 16777216 \<or> n = - 16777216" by linarith
  then show ?thesis
    using rnd32_2_24 by (elim disjE) simp_all
next
  case False
  with assms have "\<bar>n\<bar> < 16777216" by simp
  then have "(of_int \<bar>n\<bar> :: rat) < of_int 16777216"
    by (simp only: of_int_less_iff)
  then have lt: "\<bar>of_int n :: rat\<bar> < 16777216"
    by simp
  then have small: "\<bar>of_int n :: rat\<bar> * 2 ^ 126 < 16777216 * 2 ^ 126"
    by (rule mult_strict_right_mono) simp
  have "\<bar>of_int n :: rat\<bar> < 2 ^ 130"
    using lt by (rule less_trans) simp
  note s = expo32_spec [OF this]
  have "expo32 (of_int n) \<le> 149"
  proof (rule ccontr)
    assume "\<not> expo32 (of_int n) \<le> 149"
    then have le: "150 \<le> expo32 (of_int n)" by simp
    then have "(2::rat) ^ 150 \<le> 2 ^ expo32 (of_int n)"
      by (rule power_increasing) simp
    also have "\<dots> \<le> \<bar>of_int n\<bar> * 2 ^ 126" using s le by auto
    also note small
    finally show False by simp
  qed
  then show ?thesis by (rule rnd32_int_small)
qed

lemma float32_large_is_int:
  assumes "rnd32 x = x" and "2 ^ 24 \<le> \<bar>x\<bar>" and "\<bar>x\<bar> < 2 ^ 130"
  shows "of_int \<lfloor>x\<rfloor> = x"
proof -
  define e where "e = expo32 x"
  define n where "n = round_even (x / ulp32 x)"
  note s = expo32_spec [OF assms(3), folded e_def]
  have "(2::rat) ^ 150 = 2 ^ 24 * 2 ^ 126" by simp
  also have "\<dots> \<le> \<bar>x\<bar> * 2 ^ 126"
    using assms(2) by (rule mult_right_mono) simp
  also have "\<dots> < 2 ^ (e + 1)" using s by simp
  finally have "150 < e + 1"
    by (simp only: power_strict_increasing_iff [of "2::rat"] one_less_numeral_iff semiring_norm)
  then have e: "149 \<le> e" by simp
  have "(2::rat) ^ e = 2 ^ (e - 149) * 2 ^ 149"
    using e by (simp only: power_add [symmetric] le_add_diff_inverse2)
  then have "ulp32 x = 2 ^ (e - 149)"
    by (simp add: ulp32_def e_def)
  moreover have "x = of_int n * ulp32 x"
    using assms(1) by (simp add: rnd32_def n_def)
  ultimately have "x = of_int (n * 2 ^ (e - 149))" by simp
  then show ?thesis by (metis floor_of_int)
qed

lemma float_of_int_exact: "\<bar>n\<bar> \<le> 2 ^ 24 \<Longrightarrow> float_of_int n = of_int n"
  by (simp add: float_of_int_def rnd32_of_int)

lemma frac_nonneg_small:
  assumes "is_float32 x" and "0 \<le> x" and "x < 2 ^ 24"
  shows "frac x = Some (x - of_int \<lfloor>x\<rfloor>, \<lfloor>x\<rfloor>) \<and>
         rnd32 (x - of_int \<lfloor>x\<rfloor>) = x - of_int \<lfloor>x\<rfloor>"
proof -
  define i where "i = \<lfloor>x\<rfloor>"
  have fl: "of_int i \<le> x" "x < of_int i + 1"
    unfolding i_def by linarith+
  have i0: "0 \<le> i" using assms(2) by (simp add: i_def)
  have "i < 2 ^ 24"
    using assms(3) by (simp add: i_def floor_less_iff)
  then have i24: "i < 16777216" by simp
  have conv: "float_to_int x = Some i"
    using i0 i24 assms(2) by (simp add: float_to_int_def INT_MIN_def INT_MAX_def i_def)
  have fi: "float_of_int i = of_int i"
    using i0 i24 by (intro float_of_int_exact) simp
  have x130: "\<bar>x\<bar> < 2 ^ 130"
    using assms(2,3) by simp
  have v: "\<bar>x - of_int i\<bar> \<le> \<bar>x\<bar>" "\<bar>x - of_int i\<bar> \<le> 1"
    using fl i0 assms(2) by (simp_all add: abs_if)
  have "rnd32 (x - of_int i) = x - of_int i"
  proof (rule rnd32_sub_int)
    show "rnd32 x = x" using assms(1) by (simp add: is_float32_def)
    show "expo32 (x - of_int i) \<le> expo32 x"
      using v(1) x130 by (rule expo32_mono)
    show "expo32 (x - of_int i) \<le> 149"
      using expo32_le_one [OF v(2)] by simp
  qed
  then show ?thesis
    using conv fi i0 assms(2)
    by (simp add: frac_def fsub_def INT_MIN_def i_def [symmetric])
qed

lemma frac_nonneg_large:
  assumes "is_float32 x" and "2 ^ 24 \<le> x" and "x < 2 ^ 31"
  shows "frac x = Some (0, \<lfloor>x\<rfloor>) \<and> of_int \<lfloor>x\<rfloor> = x"
proof -
  define i where "i = \<lfloor>x\<rfloor>"
  have x0: "0 \<le> x" using assms(2) by (rule order_trans [rotated]) simp
  have fixed: "rnd32 x = x" using assms(1) by (simp add: is_float32_def)
  have "\<bar>x\<bar> < 2 ^ 130"
    using assms(1) by (simp add: is_float32_def) 
  with fixed assms(2) x0 have int: "of_int i = x"
    unfolding i_def by (intro float32_large_is_int) simp_all
  have i0: "0 \<le> i" using x0 by (simp add: i_def)
  have "i < 2 ^ 31"
    using assms(3) by (simp add: i_def floor_less_iff)
  then have "i < 2147483648" by simp
  then have conv: "float_to_int x = Some i"
    using i0 x0 by (simp add: float_to_int_def INT_MIN_def INT_MAX_def i_def)
  have "float_of_int i = x"
    using fixed by (simp add: float_of_int_def int)
  then have "frac x = Some (0, i)"
    using conv i0 x0
    by (simp add: frac_def fsub_def INT_MIN_def i_def [symmetric])
  with int show ?thesis by (simp add: i_def)
qed

lemma frac_negative:
  assumes "is_float32 x" and "- (2 ^ 24) < x" and "x \<le> - 1"
  shows "frac x = Some (x - of_int (\<lceil>x\<rceil> - 1), \<lceil>x\<rceil> - 1) \<and>
         rnd32 (x - of_int (\<lceil>x\<rceil> - 1)) = x - of_int (\<lceil>x\<rceil> - 1)"
proof -
  define t where "t = \<lceil>x\<rceil>"
  have ce: "x \<le> of_int t" "of_int t < x + 1"
    unfolding t_def by linarith+
  have neg: "x < 0" using assms(3) by simp
  have "t \<le> - 1"
    using assms(3) by (simp add: t_def ceiling_le_iff)
  have "- (2 ^ 24) < (of_int t :: rat)"
    using assms(2) ce(1) by (rule less_le_trans)
  then have "(of_int (- 16777216) :: rat) < of_int t" by simp
  then have t24: "- 16777216 < t" by (simp only: of_int_less_iff)
  have conv: "float_to_int x = Some t"
    using t24 \<open>t \<le> - 1\<close> neg by (simp add: float_to_int_def INT_MIN_def INT_MAX_def t_def)
  have fi: "float_of_int (t - 1) = of_int (t - 1)"
    using t24 \<open>t \<le> - 1\<close> by (intro float_of_int_exact) simp
  have x130: "\<bar>x\<bar> < 2 ^ 130"
    using assms(1) by (simp add: is_float32_def)
  have v: "\<bar>x - of_int (t - 1)\<bar> \<le> \<bar>x\<bar>" "\<bar>x - of_int (t - 1)\<bar> \<le> 1"
    using ce assms(3) by (simp_all add: abs_if)
  have "rnd32 (x - of_int (t - 1)) = x - of_int (t - 1)"
  proof (rule rnd32_sub_int)
    show "rnd32 x = x" using assms(1) by (simp add: is_float32_def)
    show "expo32 (x - of_int (t - 1)) \<le> expo32 x"
      using v(1) x130 by (rule expo32_mono)
    show "expo32 (x - of_int (t - 1)) \<le> 149"
      using expo32_le_one [OF v(2)] by simp
  qed
  then show ?thesis
    using conv fi neg t24
    by (simp add: frac_def fsub_def INT_MIN_def t_def [symmetric])
qed

lemma frac_negative_unit:
  assumes "- 1 < x" and "x < 0"
  shows "frac x = Some (rnd32 (x + 1), - 1)"
proof -
  have "\<lceil>x\<rceil> = 0"
    using assms by (simp add: ceiling_eq_iff)
  moreover have "float_of_int (- 1) = - 1"
    using float_of_int_exact [of "- 1"] by simp
  ultimately show ?thesis
    using assms(2) by (simp add: frac_def float_to_int_def INT_MIN_def INT_MAX_def fsub_def)
qed

section \<open>The fractional part computed by \<^verbatim>\<open>frac\<close>\<close>

text \<open>
  C10, as amended.  For every finite binary32 \<open>x\<close> with \<open>- 2 ^ 24 < x < 2 ^ 31\<close>, \<open>frac\<close>
  stores the integer \<open>i = trunc x - (if x < 0 then 1 else 0)\<close> and returns the
  single-precision difference of \<open>x\<close> and \<open>i\<close>, which lies in the closed interval from 0
  to 1.  The returned value plus the stored integer is \<open>x\<close> again whenever \<open>0 \<le> x\<close> or
  \<open>x \<le> - 1\<close> (for \<open>- 1 < x < 0\<close> the returned value is \<open>1 + x\<close> rounded).  When \<open>x\<close> is a
  negative whole number the returned value is exactly 1 and the stored integer is
  \<open>x - 1\<close>.
\<close>

theorem frac_float32:
  assumes "is_float32 x" and "- (2 ^ 24) < x" and "x < 2 ^ 31"
  shows "\<exists>r i. frac x = Some (r, i) \<and>
           i = (if x < 0 then \<lceil>x\<rceil> else \<lfloor>x\<rfloor>) - (if x < 0 then 1 else 0) \<and>
           r = rnd32 (x - of_int i) \<and> 0 \<le> r \<and> r \<le> 1 \<and>
           (0 \<le> x \<or> x \<le> - 1 \<longrightarrow> r + of_int i = x) \<and>
           (x < 0 \<and> x \<in> \<int> \<longrightarrow> r = 1 \<and> of_int i = x - 1)"
proof -
  consider "0 \<le> x" "x < 2 ^ 24" | "2 ^ 24 \<le> x" | "x \<le> - 1" | "- 1 < x" "x < 0"
    by linarith
  then show ?thesis
  proof cases
    case 1
    note fr = frac_nonneg_small [OF assms(1) 1]
    have "of_int \<lfloor>x\<rfloor> \<le> x" "x < of_int \<lfloor>x\<rfloor> + 1" by linarith+
    then have "0 \<le> x - of_int \<lfloor>x\<rfloor>" "x - of_int \<lfloor>x\<rfloor> \<le> 1" by simp_all
    then show ?thesis
      using fr 1(1) by simp
  next
    case 2
    then have x0: "0 \<le> x" by (rule order_trans [rotated]) simp
    note fr = frac_nonneg_large [OF assms(1) 2 assms(3)]
    have eq: "of_int \<lfloor>x\<rfloor> = x" by (rule conjunct2 [OF fr])
    have "x - of_int \<lfloor>x\<rfloor> = 0" by (simp only: eq diff_self)
    then have "rnd32 (x - of_int \<lfloor>x\<rfloor>) = 0" by (simp only: rnd32_zero)
    then show ?thesis
      using conjunct1 [OF fr] eq x0 by (simp del: of_int_floor_cancel)
  next
    case 3
    define t where "t = \<lceil>x\<rceil>"
    have ce: "x \<le> of_int t" "of_int t < x + 1"
      unfolding t_def by linarith+
    note fr = frac_negative [OF assms(1) assms(2) 3, folded t_def]
    have x0: "x < 0" using 3 by simp
    have v: "0 \<le> x - of_int (t - 1)" "x - of_int (t - 1) \<le> 1" using ce by simp_all
    have whole: "x \<in> \<int> \<Longrightarrow> of_int t = x"
      unfolding t_def by (metis Ints_cases ceiling_of_int)
    show ?thesis
      using fr x0 v whole by (auto simp add: t_def [symmetric])
  next
    case 4
    have "x \<notin> \<int>"
    proof
      assume "x \<in> \<int>"
      then obtain k :: int where "x = of_int k" by (rule Ints_cases)
      with 4 have "- 1 < k" "k < 0" by simp_all
      then show False by simp
    qed
    moreover have "\<lceil>x\<rceil> = 0" using 4 by (simp add: ceiling_eq_iff)
    moreover have "0 \<le> rnd32 (x + 1) \<and> rnd32 (x + 1) \<le> 1"
      using 4 by (intro rnd32_unit_interval) simp_all
    ultimately show ?thesis
      using frac_negative_unit [OF 4] 4 by simp
  qed
qed

theorem frac_float32_witness:
  "is_float32 (- 3) \<and> frac (- 3) = Some (1, - 4)"
proof -
  have f: "is_float32 (- 3)"
    by (simp add: is_float32_def rnd_eval)
  from frac_float32 [OF f] obtain r i where
    "frac (- 3) = Some (r, i)" "i = \<lceil>- 3 :: rat\<rceil> - 1" "r = 1"
    by auto
  then show ?thesis using f by simp
qed

text \<open>
  As stated for every finite input within integer range, C10 fails.  For the whole number
  \<open>- 16777218\<close> the stored integer \<open>- 16777219\<close> is no binary32 value; its conversion
  rounds to \<open>- 16777220\<close>, and \<open>frac\<close> returns 2, outside the interval and not 1.  For
  \<open>- 16777216\<close> the conversion of \<open>- 16777217\<close> rounds to \<open>- 16777216\<close> and \<open>frac\<close> returns 0.
  For \<open>- 2 ^ - 30\<close> the difference \<open>1 - 2 ^ - 30\<close> rounds to 1, and the returned value plus
  the stored integer is 0, not \<open>x\<close>.
\<close>

theorem frac_large_negative_counterexample:
  "is_float32 (- 16777218) \<and> frac (- 16777218) = Some (2, - 16777219) \<and>
   is_float32 (- 16777216) \<and> frac (- 16777216) = Some (0, - 16777217) \<and>
   is_float32 (- (1 / 2 ^ 30)) \<and> frac (- (1 / 2 ^ 30)) = Some (1, - 1) \<and>
   (1::rat) + of_int (- 1) \<noteq> - (1 / 2 ^ 30)"
  by (simp add: is_float32_def frac_def float_to_int_def INT_MIN_def INT_MAX_def fsub_def
      float_of_int_def ceiling_def rnd_eval)

section \<open>Error propagation through the single-precision operations\<close>

lemma rnd32_error_bound:
  assumes "\<bar>z\<bar> \<le> B" and "1 \<le> B" and "B \<le> 1024"
  shows "\<bar>rnd32 z - z\<bar> \<le> B / 16777216"
proof -
  have "\<bar>z\<bar> < 2 ^ 130"
    using assms(1,3) by (rule_tac le_less_trans [of _ 1024]) simp_all
  note s = expo32_spec [OF this]
  have "ulp32 z / 2 \<le> B / 16777216"
  proof (cases "expo32 z = 0")
    case True
    then have "ulp32 z / 2 \<le> 1 / 16777216"
      by (simp add: ulp32_def)
    also have "\<dots> \<le> B / 16777216"
      using assms(2) by simp
    finally show ?thesis .
  next
    case False
    with s have "2 ^ expo32 z \<le> \<bar>z\<bar> * 2 ^ 126" by simp
    then have "2 ^ expo32 z / 2 ^ 149 \<le> \<bar>z\<bar> * 2 ^ 126 / 2 ^ 149"
      by (rule divide_right_mono) simp
    then have "ulp32 z \<le> \<bar>z\<bar> / 8388608"
      by (simp add: ulp32_def)
    also have "\<dots> \<le> B / 8388608"
      using assms(1) by (rule divide_right_mono) simp
    finally show ?thesis by simp
  qed
  with rnd32_error [of z] show ?thesis by simp
qed

lemma approx_rnd32:
  assumes "\<bar>z\<bar> \<le> Bz" and "\<bar>z - Z\<bar> \<le> ez" and "1 \<le> Bz" and "Bz \<le> 1024"
    and "Bz + Bz / 16777216 \<le> B" and "ez + Bz / 16777216 \<le> e"
  shows "approx (rnd32 z) Z B e"
proof -
  note r = rnd32_error_bound [OF assms(1) assms(3) assms(4)]
  have "\<bar>rnd32 z\<bar> \<le> \<bar>z\<bar> + \<bar>rnd32 z - z\<bar>" by simp
  with r assms(1,5) have "\<bar>rnd32 z\<bar> \<le> B" by simp
  moreover have "\<bar>rnd32 z - Z\<bar> \<le> \<bar>rnd32 z - z\<bar> + \<bar>z - Z\<bar>" by simp
  with r assms(2,6) have "\<bar>rnd32 z - Z\<bar> \<le> e" by simp
  ultimately show ?thesis by (simp add: approx_def)
qed

lemma approx_exact: "\<bar>c\<bar> \<le> B \<Longrightarrow> approx c c B 0"
  by (simp add: approx_def)

lemma approx_neg: "approx s S B e \<Longrightarrow> approx (- s) (- S) B e"
  by (simp add: approx_def abs_minus_commute)

lemma approx_fadd:
  assumes "approx s S Bs es" and "approx t T Bt et"
    and "Bs + Bt \<le> Bz" and "1 \<le> Bz" and "Bz \<le> 1024"
    and "Bz + Bz / 16777216 \<le> B" and "es + et + Bz / 16777216 \<le> e"
  shows "approx (fadd s t) (S + T) B e"
  unfolding fadd_def
proof (rule approx_rnd32 [OF _ _ assms(4) assms(5) assms(6) assms(7)])
  have "\<bar>s + t\<bar> \<le> \<bar>s\<bar> + \<bar>t\<bar>" by simp
  then show "\<bar>s + t\<bar> \<le> Bz"
    using assms(1,2,3) by (simp add: approx_def)
  have "\<bar>s + t - (S + T)\<bar> \<le> \<bar>s - S\<bar> + \<bar>t - T\<bar>" by simp
  then show "\<bar>s + t - (S + T)\<bar> \<le> es + et"
    using assms(1,2) by (simp add: approx_def)
qed

lemma approx_fsub:
  assumes "approx s S Bs es" and "approx t T Bt et"
    and "Bs + Bt \<le> Bz" and "1 \<le> Bz" and "Bz \<le> 1024"
    and "Bz + Bz / 16777216 \<le> B" and "es + et + Bz / 16777216 \<le> e"
  shows "approx (fsub s t) (S - T) B e"
  unfolding fsub_def
proof (rule approx_rnd32 [OF _ _ assms(4) assms(5) assms(6) assms(7)])
  have "\<bar>s - t\<bar> \<le> \<bar>s\<bar> + \<bar>t\<bar>" by simp
  then show "\<bar>s - t\<bar> \<le> Bz"
    using assms(1,2,3) by (simp add: approx_def)
  have "\<bar>s - t - (S - T)\<bar> \<le> \<bar>s - S\<bar> + \<bar>t - T\<bar>" by simp
  then show "\<bar>s - t - (S - T)\<bar> \<le> es + et"
    using assms(1,2) by (simp add: approx_def)
qed

lemma approx_fmul:
  assumes "approx s S Bs es" and "approx t T Bt et"
    and "Bs * Bt \<le> Bz" and "1 \<le> Bz" and "Bz \<le> 1024"
    and "Bz + Bz / 16777216 \<le> B" and "Bs * et + (Bt + et) * es + Bz / 16777216 \<le> e"
  shows "approx (fmul s t) (S * T) B e"
  unfolding fmul_def
proof (rule approx_rnd32 [OF _ _ assms(4) assms(5) assms(6)])
  have s: "\<bar>s\<bar> \<le> Bs" "\<bar>s - S\<bar> \<le> es" and t: "\<bar>t\<bar> \<le> Bt" "\<bar>t - T\<bar> \<le> et"
    using assms(1,2) by (simp_all add: approx_def)
  have "\<bar>s * t\<bar> \<le> Bs * Bt"
    unfolding abs_mult using s(1) t(1) by (intro mult_mono) simp_all
  with assms(3) show "\<bar>s * t\<bar> \<le> Bz" by simp
  have "\<bar>T\<bar> \<le> \<bar>t\<bar> + \<bar>t - T\<bar>" by simp
  with t have T: "\<bar>T\<bar> \<le> Bt + et" by simp
  have "s * t - S * T = s * (t - T) + T * (s - S)"
    by (simp add: algebra_simps)
  then have "\<bar>s * t - S * T\<bar> \<le> \<bar>s\<bar> * \<bar>t - T\<bar> + \<bar>T\<bar> * \<bar>s - S\<bar>"
    by (simp add: abs_mult [symmetric] del: abs_mult)
  also have "\<dots> \<le> Bs * et + (Bt + et) * es"
    using s t T by (intro add_mono mult_mono) simp_all
  finally show "\<bar>s * t - S * T\<bar> \<le> Bs * et + (Bt + et) * es" .
  show "Bs * et + (Bt + et) * es + Bz / 16777216 \<le> e" by (rule assms(7))
qed

section \<open>The basis functions: partition of unity\<close>

lemma sixth: "fdiv 1 6 = 11184811 / 67108864"
  by (simp add: fdiv_def rnd_eval)

lemma sixth_approx: "approx (fdiv 1 6) (1 / 6) (11184811 / 67108864) (1 / 201326592)"
  by (simp add: approx_def sixth)

lemma cubic_w0_approx:
  assumes "0 \<le> a" and "a \<le> 1"
  shows "approx (cubic_w0 a) (spec_w0 a) (3 / 2) (29 / 67108864)"
proof -
  have a0: "approx a a 1 0"
    using assms by (simp add: approx_def)
  have s1: "approx (fadd (- a) 3)
      (- a + 3)
      (65 / 16) (1 / 4194304)"
    by (rule approx_fadd [where Bz = "4", OF approx_neg [OF a0] approx_exact [of "3" "3", simplified]]) simp_all
  have s2: "approx (fmul a (fadd (- a) 3))
      (a * (- a + 3))
      (33 / 8) (129 / 268435456)"
    by (rule approx_fmul [where Bz = "65 / 16", OF a0 s1]) simp_all
  have s3: "approx (fsub (fmul a (fadd (- a) 3)) 3)
      (a * (- a + 3) - 3)
      (115 / 16) (243 / 268435456)"
    by (rule approx_fsub [where Bz = "57 / 8", OF s2 approx_exact [of "3" "3", simplified]]) simp_all
  have s4: "approx (fmul a (fsub (fmul a (fadd (- a) 3)) 3))
      (a * (a * (- a + 3) - 3))
      (29 / 4) (179 / 134217728)"
    by (rule approx_fmul [where Bz = "115 / 16", OF a0 s3]) simp_all
  have s5: "approx (fadd (fmul a (fsub (fmul a (fadd (- a) 3)) 3)) 1)
      (a * (a * (- a + 3) - 3) + 1)
      (133 / 16) (245 / 134217728)"
    by (rule approx_fadd [where Bz = "33 / 4", OF s4 approx_exact [of "1" "1", simplified]]) simp_all
  have s6: "approx (fmul (fdiv 1 6) (fadd (fmul a (fsub (fmul a (fadd (- a) 3)) 3)) 1))
      ((1 / 6) * (a * (a * (- a + 3) - 3) + 1))
      (3 / 2) (29 / 67108864)"
    by (rule approx_fmul [where Bz = "23 / 16", OF sixth_approx s5]) simp_all
  have eq: "spec_w0 a = (1 / 6) * (a * (a * (- a + 3) - 3) + 1)"
    by (simp add: spec_w0_def power2_eq_square power3_eq_cube)
  show ?thesis
    unfolding cubic_w0_def eq by (rule s6)
qed

lemma cubic_w1_approx:
  assumes "0 \<le> a" and "a \<le> 1"
  shows "approx (cubic_w1 a) (spec_w1 a) (39 / 16) (179 / 268435456)"
proof -
  have a0: "approx a a 1 0"
    using assms by (simp add: approx_def)
  have s1: "approx (fmul a a)
      (a * a)
      (17 / 16) (1 / 16777216)"
    by (rule approx_fmul [where Bz = "1", OF a0 a0]) simp_all
  have s2: "approx (fmul 3 a)
      (3 * a)
      (49 / 16) (3 / 16777216)"
    by (rule approx_fmul [where Bz = "3", OF approx_exact [of "3" "3", simplified] a0]) simp_all
  have s3: "approx (fsub (fmul 3 a) 6)
      (3 * a - 6)
      (73 / 8) (193 / 268435456)"
    by (rule approx_fsub [where Bz = "145 / 16", OF s2 approx_exact [of "6" "6", simplified]]) simp_all
  have s4: "approx (fmul (fmul a a) (fsub (fmul 3 a) 6))
      ((a * a) * (3 * a - 6))
      (157 / 16) (127 / 67108864)"
    by (rule approx_fmul [where Bz = "39 / 4", OF s1 s3]) simp_all
  have s5: "approx (fadd (fmul (fmul a a) (fsub (fmul 3 a) 6)) 4)
      ((a * a) * (3 * a - 6) + 4)
      (111 / 8) (729 / 268435456)"
    by (rule approx_fadd [where Bz = "221 / 16", OF s4 approx_exact [of "4" "4", simplified]]) simp_all
  have s6: "approx (fmul (fdiv 1 6) (fadd (fmul (fmul a a) (fsub (fmul 3 a) 6)) 4))
      ((1 / 6) * ((a * a) * (3 * a - 6) + 4))
      (39 / 16) (179 / 268435456)"
    by (rule approx_fmul [where Bz = "19 / 8", OF sixth_approx s5]) simp_all
  have eq: "spec_w1 a = (1 / 6) * ((a * a) * (3 * a - 6) + 4)"
    by (simp add: spec_w1_def power2_eq_square power3_eq_cube)
  show ?thesis
    unfolding cubic_w1_def eq by (rule s6)
qed

lemma cubic_w2_approx:
  assumes "0 \<le> a" and "a \<le> 1"
  shows "approx (cubic_w2 a) (spec_w2 a) (29 / 16) (5 / 8388608)"
proof -
  have a0: "approx a a 1 0"
    using assms by (simp add: approx_def)
  have s1: "approx (fmul (- 3) a)
      ((- 3) * a)
      (49 / 16) (3 / 16777216)"
    by (rule approx_fmul [where Bz = "3", OF approx_exact [of "- 3" "3", simplified] a0]) simp_all
  have s2: "approx (fadd (fmul (- 3) a) 3)
      ((- 3) * a + 3)
      (49 / 8) (145 / 268435456)"
    by (rule approx_fadd [where Bz = "97 / 16", OF s1 approx_exact [of "3" "3", simplified]]) simp_all
  have s3: "approx (fmul a (fadd (fmul (- 3) a) 3))
      (a * ((- 3) * a + 3))
      (99 / 16) (243 / 268435456)"
    by (rule approx_fmul [where Bz = "49 / 8", OF a0 s2]) simp_all
  have s4: "approx (fadd (fmul a (fadd (fmul (- 3) a) 3)) 3)
      (a * ((- 3) * a + 3) + 3)
      (37 / 4) (195 / 134217728)"
    by (rule approx_fadd [where Bz = "147 / 16", OF s3 approx_exact [of "3" "3", simplified]]) simp_all
  have s5: "approx (fmul a (fadd (fmul a (fadd (fmul (- 3) a) 3)) 3))
      (a * (a * ((- 3) * a + 3) + 3))
      (149 / 16) (269 / 134217728)"
    by (rule approx_fmul [where Bz = "37 / 4", OF a0 s4]) simp_all
  have s6: "approx (fadd (fmul a (fadd (fmul a (fadd (fmul (- 3) a) 3)) 3)) 1)
      (a * (a * ((- 3) * a + 3) + 3) + 1)
      (83 / 8) (703 / 268435456)"
    by (rule approx_fadd [where Bz = "165 / 16", OF s5 approx_exact [of "1" "1", simplified]]) simp_all
  have s7: "approx (fmul (fdiv 1 6) (fadd (fmul a (fadd (fmul a (fadd (fmul (- 3) a) 3)) 3)) 1))
      ((1 / 6) * (a * (a * ((- 3) * a + 3) + 3) + 1))
      (29 / 16) (5 / 8388608)"
    by (rule approx_fmul [where Bz = "7 / 4", OF sixth_approx s6]) simp_all
  have eq: "spec_w2 a = (1 / 6) * (a * (a * ((- 3) * a + 3) + 3) + 1)"
    by (simp add: spec_w2_def power2_eq_square power3_eq_cube)
  show ?thesis
    unfolding cubic_w2_def eq by (rule s7)
qed

lemma cubic_w3_approx:
  assumes "0 \<le> a" and "a \<le> 1"
  shows "approx (cubic_w3 a) (spec_w3 a) (17 / 16) (3 / 33554432)"
proof -
  have a0: "approx a a 1 0"
    using assms by (simp add: approx_def)
  have s1: "approx (fmul a a)
      (a * a)
      (17 / 16) (1 / 16777216)"
    by (rule approx_fmul [where Bz = "1", OF a0 a0]) simp_all
  have s2: "approx (fmul (fmul a a) a)
      ((a * a) * a)
      (9 / 8) (33 / 268435456)"
    by (rule approx_fmul [where Bz = "17 / 16", OF s1 a0]) simp_all
  have s3: "approx (fmul (fdiv 1 6) (fmul (fmul a a) a))
      ((1 / 6) * ((a * a) * a))
      (17 / 16) (3 / 33554432)"
    by (rule approx_fmul [where Bz = "1", OF sixth_approx s2]) simp_all
  have eq: "spec_w3 a = (1 / 6) * ((a * a) * a)"
    by (simp add: spec_w3_def power2_eq_square power3_eq_cube)
  show ?thesis
    unfolding cubic_w3_def eq by (rule s3)
qed


lemma spec_partition: "spec_w0 a + spec_w1 a + spec_w2 a + spec_w3 a = 1"
  by (simp add: spec_w0_def spec_w1_def spec_w2_def spec_w3_def power2_eq_square
      power3_eq_cube algebra_simps)

lemma cubic_g0_approx:
  assumes "0 \<le> a" and "a \<le> 1"
  shows "approx (cubic_g0 a) (spec_g0 a) (65 / 16) (23 / 16777216)"
  unfolding cubic_g0_def spec_g0_def
  by (rule approx_fadd [where Bz = 4, OF cubic_w0_approx [OF assms] cubic_w1_approx [OF assms]])
    simp_all

lemma cubic_g1_approx:
  assumes "0 \<le> a" and "a \<le> 1"
  shows "approx (cubic_g1 a) (spec_g1 a) (49 / 16) (15 / 16777216)"
  unfolding cubic_g1_def spec_g1_def
  by (rule approx_fadd [where Bz = 3, OF cubic_w2_approx [OF assms] cubic_w3_approx [OF assms]])
    simp_all

text \<open>
  C6.  For every \<open>a\<close> with \<open>0 \<le> a < 1\<close> the four basis functions sum to 1 and so do the two
  amplitudes: exactly for the polynomials in rational arithmetic, and within \<open>10\<^sup>-\<^sup>5\<close> for
  the values the single-precision functions compute, whether the sum itself is exact or
  formed in single precision.  Each computed basis value is within \<open>10\<^sup>-\<^sup>6\<close> of its
  polynomial.
\<close>

theorem cubic_partition_of_unity:
  assumes "0 \<le> a" and "a < 1"
  shows "spec_w0 a + spec_w1 a + spec_w2 a + spec_w3 a = 1 \<and>
         spec_g0 a + spec_g1 a = 1 \<and>
         \<bar>cubic_w0 a - spec_w0 a\<bar> \<le> 1 / 1000000 \<and>
         \<bar>cubic_w1 a - spec_w1 a\<bar> \<le> 1 / 1000000 \<and>
         \<bar>cubic_w2 a - spec_w2 a\<bar> \<le> 1 / 1000000 \<and>
         \<bar>cubic_w3 a - spec_w3 a\<bar> \<le> 1 / 1000000 \<and>
         \<bar>cubic_w0 a + cubic_w1 a + cubic_w2 a + cubic_w3 a - 1\<bar> \<le> 1 / 100000 \<and>
         \<bar>fadd (fadd (fadd (cubic_w0 a) (cubic_w1 a)) (cubic_w2 a)) (cubic_w3 a) - 1\<bar>
           \<le> 1 / 100000 \<and>
         \<bar>cubic_g0 a + cubic_g1 a - 1\<bar> \<le> 1 / 100000 \<and>
         \<bar>fadd (cubic_g0 a) (cubic_g1 a) - 1\<bar> \<le> 1 / 100000"
proof -
  have a: "0 \<le> a" "a \<le> 1" using assms by simp_all
  note w0 = cubic_w0_approx [OF a] and w1 = cubic_w1_approx [OF a]
    and w2 = cubic_w2_approx [OF a] and w3 = cubic_w3_approx [OF a]
    and g0 = cubic_g0_approx [OF a] and g1 = cubic_g1_approx [OF a]
  have one: "spec_w0 a + spec_w1 a + spec_w2 a + spec_w3 a = 1"
    by (rule spec_partition)
  then have gone: "spec_g0 a + spec_g1 a = 1"
    by (simp add: spec_g0_def spec_g1_def)
  have e0: "\<bar>cubic_w0 a - spec_w0 a\<bar> \<le> 29 / 67108864"
    and e1: "\<bar>cubic_w1 a - spec_w1 a\<bar> \<le> 179 / 268435456"
    and e2: "\<bar>cubic_w2 a - spec_w2 a\<bar> \<le> 5 / 8388608"
    and e3: "\<bar>cubic_w3 a - spec_w3 a\<bar> \<le> 3 / 33554432"
    using w0 w1 w2 w3 by (simp_all add: approx_def)
  have sum: "\<bar>cubic_w0 a + cubic_w1 a + cubic_w2 a + cubic_w3 a - 1\<bar> \<le> 1 / 100000"
    using e0 e1 e2 e3 one by linarith
  have s1: "approx (fadd (cubic_g0 a) (cubic_w2 a)) (spec_g0 a + spec_w2 a)
      (97 / 16) (21 / 8388608)"
    by (rule approx_fadd [where Bz = 6, OF g0 w2]) simp_all
  have s2: "approx (fadd (fadd (cubic_g0 a) (cubic_w2 a)) (cubic_w3 a))
      (spec_g0 a + spec_w2 a + spec_w3 a) (8) (1 / 262144)"
    by (rule approx_fadd [where Bz = "15 / 2", OF s1 w3]) simp_all
  have fsum: "\<bar>fadd (fadd (fadd (cubic_w0 a) (cubic_w1 a)) (cubic_w2 a)) (cubic_w3 a) - 1\<bar>
      \<le> 1 / 100000"
    using s2 one by (simp add: approx_def cubic_g0_def spec_g0_def)
  have eg: "\<bar>cubic_g0 a - spec_g0 a\<bar> \<le> 23 / 16777216"
    "\<bar>cubic_g1 a - spec_g1 a\<bar> \<le> 15 / 16777216"
    using g0 g1 by (simp_all add: approx_def)
  have gsum: "\<bar>cubic_g0 a + cubic_g1 a - 1\<bar> \<le> 1 / 100000"
    using eg gone by linarith
  have s3: "approx (fadd (cubic_g0 a) (cubic_g1 a)) (spec_g0 a + spec_g1 a) 8 (1 / 262144)"
    by (rule approx_fadd [where Bz = "15 / 2", OF g0 g1]) simp_all
  have fgsum: "\<bar>fadd (cubic_g0 a) (cubic_g1 a) - 1\<bar> \<le> 1 / 100000"
    using s3 gone by (simp add: approx_def)
  show ?thesis
    using one gone e0 e1 e2 e3 sum fsum gsum fgsum by simp
qed

theorem cubic_partition_of_unity_witness:
  "(0::rat) \<le> 1 / 2 \<and> (1 / 2 :: rat) < 1 \<and>
   spec_w0 (1 / 2) + spec_w1 (1 / 2) + spec_w2 (1 / 2) + spec_w3 (1 / 2) = 1 \<and>
   \<bar>cubic_w0 (1 / 2) + cubic_w1 (1 / 2) + cubic_w2 (1 / 2) + cubic_w3 (1 / 2) - 1\<bar>
     \<le> 1 / 100000 \<and>
   \<bar>fadd (cubic_g0 (1 / 2)) (cubic_g1 (1 / 2)) - 1\<bar> \<le> 1 / 100000"
  using cubic_partition_of_unity [of "1 / 2"] by simp

section \<open>The bicubic reconstruction at a pixel centre\<close>

lemma cubic_w_at_zero:
  "cubic_w0 0 = 11184811 / 67108864"
  "cubic_w1 0 = 11184811 / 16777216"
  "cubic_w2 0 = 11184811 / 67108864"
  "cubic_w3 0 = 0"
  by (simp_all add: cubic_w0_def cubic_w1_def cubic_w2_def cubic_w3_def sixth fadd_def fsub_def
      fmul_def rnd_eval)

lemma cubic_g_at_zero:
  "cubic_g0 0 = 6990507 / 8388608"
  "cubic_g1 0 = 11184811 / 67108864"
  by (simp_all add: cubic_g0_def cubic_g1_def cubic_w_at_zero fadd_def rnd_eval)

lemma cubic_h_at_zero:
  "cubic_h0 0 = - (3355443 / 16777216)"
  "cubic_h1 0 = 1"
  by (simp_all add: cubic_h0_def cubic_h1_def cubic_w_at_zero cubic_g_at_zero fadd_def fsub_def
      fdiv_def rnd_eval)

lemma demo_pixel:
  "float_of_uint (width (demo_info 1)) = 4"
  "float_of_uint (height (demo_info 1)) = 4"
  "fsub (fmul (3 / 8) 4) (1 / 2) = 1"
  by (simp_all add: demo_info_def float_eval rnd_eval)

lemma demo_taps:
  "fdiv (fadd (fadd 1 (- (3355443 / 16777216))) (1 / 2)) 4 = 5452595 / 16777216"
  "fdiv (fadd (fadd 1 1) (1 / 2)) 4 = 5 / 8"
  by (simp_all add: float_eval rnd_eval)

lemma demo_reads:
  "demo_read t (5452595 / 16777216) (5452595 / 16777216) = 10737417 / 16777216"
  "demo_read t (5 / 8) (5452595 / 16777216) = 0"
  "demo_read t (5452595 / 16777216) (5 / 8) = 0"
  "demo_read t (5 / 8) (5 / 8) = 0"
  "demo_read t (3 / 8) (3 / 8) = 1"
  by (simp_all add: demo_read_def rnd_eval)

lemma demo_combination:
  "fadd (fmul (6990507 / 8388608)
           (fadd (fmul (6990507 / 8388608) (10737417 / 16777216))
              (fmul (11184811 / 67108864) 0)))
        (fmul (11184811 / 67108864)
           (fadd (fmul (6990507 / 8388608) 0) (fmul (11184811 / 67108864) 0))) =
   14913081 / 33554432"
  by (simp add: float_eval rnd_eval)

lemma demo_bicubic_value:
  "kernel_image_interp_bicubic fadd fmul demo_read (demo_info 1) (make_float2 (3 / 8) (3 / 8)) =
     (14913081 / 33554432,
      [Read_2D 7 (5452595 / 16777216) (5452595 / 16777216),
       Read_2D 7 (5 / 8) (5452595 / 16777216),
       Read_2D 7 (5452595 / 16777216) (5 / 8),
       Read_2D 7 (5 / 8) (5 / 8)])"
proof -
  have fx: "fsub 1 1 = 0"
    by (simp add: fsub_def)
  have px: "floorf 1 = 1"
    by (simp add: floorf_def)
  have d: "data (demo_info 1) = 7"
    by (simp add: demo_info_def)
  show ?thesis
    unfolding kernel_image_interp_bicubic_def Let_def float2.sel demo_pixel fx px
      cubic_g_at_zero cubic_h_at_zero demo_taps demo_reads demo_combination d
    by (rule refl)
qed

text \<open>
  C7, as amended.  When the fractional offsets are zero, so that the sample point is the
  centre of the pixel \<open>(px, py)\<close>, the reconstruction is still a combination of four
  reads: the amplitudes are \<open>g0 0 = 6990507 / 8388608\<close> (about 5/6) and
  \<open>g1 0 = 11184811 / 67108864\<close> (about 1/6), and the taps are at
  \<open>(px + h0 0 + 0.5) / W\<close> and \<open>(px + 1.5) / W\<close> with \<open>h0 0 = - 3355443 / 16777216\<close> (about
  \<open>- 0.2\<close>) and \<open>h1 0 = 1\<close>, and likewise in \<open>y\<close>.
\<close>

theorem kernel_image_interp_bicubic_at_pixel:
  assumes "fsub (fsub (fmul u (float_of_uint (width info))) (1 / 2))
             (floorf (fsub (fmul u (float_of_uint (width info))) (1 / 2))) = 0"
    and "fsub (fsub (fmul v (float_of_uint (height info))) (1 / 2))
             (floorf (fsub (fmul v (float_of_uint (height info))) (1 / 2))) = 0"
  shows "kernel_image_interp_bicubic add mul S info (make_float2 u v) =
     (let W = float_of_uint (width info);
          H = float_of_uint (height info);
          px = floorf (fsub (fmul u W) (1 / 2));
          py = floorf (fsub (fmul v H) (1 / 2));
          g0 = 6990507 / 8388608;
          g1 = 11184811 / 67108864;
          x0 = fdiv (fadd (fadd px (- (3355443 / 16777216))) (1 / 2)) W;
          x1 = fdiv (fadd (fadd px 1) (1 / 2)) W;
          y0 = fdiv (fadd (fadd py (- (3355443 / 16777216))) (1 / 2)) H;
          y1 = fdiv (fadd (fadd py 1) (1 / 2)) H;
          tex = data info
      in (add (mul g0 (add (mul g0 (S tex x0 y0)) (mul g1 (S tex x1 y0))))
              (mul g1 (add (mul g0 (S tex x0 y1)) (mul g1 (S tex x1 y1)))),
          [Read_2D tex x0 y0, Read_2D tex x1 y0, Read_2D tex x0 y1, Read_2D tex x1 y1]))"
  unfolding kernel_image_interp_bicubic_def Let_def float2.sel assms cubic_g_at_zero
    cubic_h_at_zero
  by (rule refl)

theorem kernel_image_interp_bicubic_at_pixel_witness:
  "fsub (fsub (fmul (3 / 8) (float_of_uint (width (demo_info 1)))) (1 / 2))
     (floorf (fsub (fmul (3 / 8) (float_of_uint (width (demo_info 1)))) (1 / 2))) = 0 \<and>
   fsub (fsub (fmul (3 / 8) (float_of_uint (height (demo_info 1)))) (1 / 2))
     (floorf (fsub (fmul (3 / 8) (float_of_uint (height (demo_info 1)))) (1 / 2))) = 0 \<and>
   kernel_image_interp_bicubic fadd fmul demo_read (demo_info 1) (make_float2 (3 / 8) (3 / 8)) =
     (fadd (fmul (6990507 / 8388608)
              (fadd (fmul (6990507 / 8388608)
                       (demo_read 7 (5452595 / 16777216) (5452595 / 16777216)))
                 (fmul (11184811 / 67108864) (demo_read 7 (5 / 8) (5452595 / 16777216)))))
           (fmul (11184811 / 67108864)
              (fadd (fmul (6990507 / 8388608) (demo_read 7 (5452595 / 16777216) (5 / 8)))
                 (fmul (11184811 / 67108864) (demo_read 7 (5 / 8) (5 / 8))))),
      [Read_2D 7 (5452595 / 16777216) (5452595 / 16777216),
       Read_2D 7 (5 / 8) (5452595 / 16777216),
       Read_2D 7 (5452595 / 16777216) (5 / 8),
       Read_2D 7 (5 / 8) (5 / 8)])"
proof -
  have fx: "fsub 1 1 = 0"
    by (simp add: fsub_def)
  have px: "floorf 1 = 1"
    by (simp add: floorf_def)
  have h: "fsub (fsub (fmul (3 / 8) (float_of_uint (width (demo_info 1)))) (1 / 2))
     (floorf (fsub (fmul (3 / 8) (float_of_uint (width (demo_info 1)))) (1 / 2))) = 0"
    "fsub (fsub (fmul (3 / 8) (float_of_uint (height (demo_info 1)))) (1 / 2))
     (floorf (fsub (fmul (3 / 8) (float_of_uint (height (demo_info 1)))) (1 / 2))) = 0"
    unfolding demo_pixel px by (rule fx)+
  have d: "data (demo_info 1) = 7"
    by (simp add: demo_info_def)
  note t = kernel_image_interp_bicubic_at_pixel [OF h, of fadd fmul demo_read,
      unfolded Let_def demo_pixel px demo_taps d]
  from h t show ?thesis by (simp only: simp_thms)
qed

text \<open>
  As stated, C7 fails: the cubic B-spline smooths and does not interpolate.  On the 4 by
  4 image whose only non-zero texel is the texel (1, 1), of value 1, sampled at the centre
  \<open>(3 / 8, 3 / 8)\<close> of that texel, both fractional offsets are zero, the direct bilinear
  read returns 1 and the reconstruction returns \<open>14913081 / 33554432\<close>, about 4/9.
\<close>

theorem kernel_image_interp_bicubic_at_pixel_counterexample:
  "fsub (fsub (fmul (3 / 8) (float_of_uint (width (demo_info 1)))) (1 / 2))
     (floorf (fsub (fmul (3 / 8) (float_of_uint (width (demo_info 1)))) (1 / 2))) = 0 \<and>
   fsub (fsub (fmul (3 / 8) (float_of_uint (height (demo_info 1)))) (1 / 2))
     (floorf (fsub (fmul (3 / 8) (float_of_uint (height (demo_info 1)))) (1 / 2))) = 0 \<and>
   fst (kernel_image_interp_bicubic fadd fmul demo_read (demo_info 1)
          (make_float2 (3 / 8) (3 / 8))) = 14913081 / 33554432 \<and>
   demo_read (data (demo_info 1)) (3 / 8) (3 / 8) = 1 \<and>
   fst (kernel_image_interp_bicubic fadd fmul demo_read (demo_info 1)
          (make_float2 (3 / 8) (3 / 8))) \<noteq> demo_read (data (demo_info 1)) (3 / 8) (3 / 8)"
proof -
  have fx: "fsub 1 1 = 0"
    by (simp add: fsub_def)
  have px: "floorf 1 = 1"
    by (simp add: floorf_def)
  show ?thesis
    unfolding demo_bicubic_value demo_pixel px fx demo_reads fst_conv
    by simp
qed

section \<open>The bicubic reconstruction: amplitudes, offsets and taps\<close>

text \<open>
  Division joins the error propagation: for a divisor bounded away from zero, in the
  computed and in the exact value, the quotient of two approximations approximates the
  quotient.
\<close>

lemma approx_fdiv:
  assumes s: "approx s S Bs es" and t: "approx t T Bt et"
    and MS: "\<bar>S\<bar> \<le> MS" and MT: "\<bar>T\<bar> \<le> MT"
    and mt: "0 < mt" "mt \<le> \<bar>t\<bar>" and mT: "0 < mT" "mT \<le> \<bar>T\<bar>"
    and Bz: "Bs / mt \<le> Bz" "1 \<le> Bz" "Bz \<le> 1024"
    and B: "Bz + Bz / 16777216 \<le> B"
    and e: "(es * MT + MS * et) / (mt * mT) + Bz / 16777216 \<le> e"
  shows "approx (fdiv s t) (S / T) B e"
  unfolding fdiv_def
proof (rule approx_rnd32 [OF _ _ Bz(2) Bz(3) B e])
  have s': "\<bar>s\<bar> \<le> Bs" "\<bar>s - S\<bar> \<le> es" and t': "\<bar>t\<bar> \<le> Bt" "\<bar>t - T\<bar> \<le> et"
    using s t by (simp_all add: approx_def)
  have nz: "t \<noteq> 0" "T \<noteq> 0"
    using mt mT by auto
  have "\<bar>s / t\<bar> = \<bar>s\<bar> / \<bar>t\<bar>" by simp
  also have "\<dots> \<le> Bs / mt"
  proof (rule frac_le)
    have "0 \<le> \<bar>s\<bar>" by simp
    also note s'(1)
    finally show "0 \<le> Bs" .
  qed (use s'(1) mt in simp_all)
  finally show "\<bar>s / t\<bar> \<le> Bz" using Bz(1) by simp
  have "s / t - S / T = ((s - S) * T - S * (t - T)) / (t * T)"
    using nz by (simp add: field_simps)
  then have "\<bar>s / t - S / T\<bar> = \<bar>(s - S) * T - S * (t - T)\<bar> / (\<bar>t\<bar> * \<bar>T\<bar>)"
    by (simp add: abs_mult)
  also have "\<dots> \<le> (es * MT + MS * et) / (mt * mT)"
  proof (rule frac_le)
    have "\<bar>(s - S) * T - S * (t - T)\<bar> \<le> \<bar>s - S\<bar> * \<bar>T\<bar> + \<bar>S\<bar> * \<bar>t - T\<bar>"
      by (metis abs_mult abs_triangle_ineq4)
    also have "\<dots> \<le> es * MT + MS * et"
      using s'(2) t'(2) MS MT by (intro add_mono mult_mono) simp_all
    finally show "\<bar>(s - S) * T - S * (t - T)\<bar> \<le> es * MT + MS * et" .
    have "0 \<le> \<bar>(s - S) * T - S * (t - T)\<bar>" by simp
    also note \<open>\<bar>(s - S) * T - S * (t - T)\<bar> \<le> es * MT + MS * et\<close>
    finally show "0 \<le> es * MT + MS * et" .
    show "0 < mt * mT" using mt(1) mT(1) by simp
    show "mt * mT \<le> \<bar>t\<bar> * \<bar>T\<bar>"
      using mt mT by (intro mult_mono) simp_all
  qed
  finally show "\<bar>s / t - S / T\<bar> \<le> (es * MT + MS * et) / (mt * mT)" .
qed

text \<open>
  On the unit interval the exact amplitudes lie between \<open>1 / 6\<close> and \<open>5 / 6\<close>, so the
  computed ones stay away from zero and the offsets \<open>cubic_h0\<close> and \<open>cubic_h1\<close> are
  within \<open>5.5e-5\<close> and \<open>9e-6\<close> of \<open>w1 / g0 - 1\<close> and \<open>w3 / g1 + 1\<close>.  The fractional
  part that the reconstruction passes to them is always in the unit interval, 1 included:
  a tiny negative \<open>x\<close> has \<open>x - floorf x\<close> rounded up to 1.
\<close>

lemma spec_g0_bounds:
  assumes "0 \<le> a" and "a \<le> 1"
  shows "1 / 6 \<le> spec_g0 a" and "spec_g0 a \<le> 5 / 6"
proof -
  have sq: "0 \<le> a * a" "a * a \<le> 1"
    using assms by (simp_all add: mult_le_one)
  have lo: "spec_g0 a - 1 / 6 = (1 - a) * (4 + a - 2 * (a * a)) / 6"
    by (simp add: spec_g0_def spec_w0_def spec_w1_def power2_eq_square algebra_simps)
  have "0 \<le> (1 - a) * (4 + a - 2 * (a * a))"
    using assms sq by (intro mult_nonneg_nonneg) simp_all
  with lo show "1 / 6 \<le> spec_g0 a" by simp
  have hi: "5 / 6 - spec_g0 a = a * (3 + 3 * a - 2 * (a * a)) / 6"
    by (simp add: spec_g0_def spec_w0_def spec_w1_def power2_eq_square algebra_simps)
  have "0 \<le> a * (3 + 3 * a - 2 * (a * a))"
    using assms sq by (intro mult_nonneg_nonneg) simp_all
  with hi show "spec_g0 a \<le> 5 / 6" by simp
qed

lemma spec_g1_bounds:
  assumes "0 \<le> a" and "a \<le> 1"
  shows "1 / 6 \<le> spec_g1 a" and "spec_g1 a \<le> 5 / 6"
proof -
  have "spec_g0 a + spec_g1 a = 1"
    using spec_partition [of a] by (simp add: spec_g0_def spec_g1_def)
  with spec_g0_bounds [OF assms] show "1 / 6 \<le> spec_g1 a" and "spec_g1 a \<le> 5 / 6"
    by simp_all
qed

lemma spec_w1_bound:
  assumes "0 \<le> a" and "a \<le> 1"
  shows "\<bar>spec_w1 a\<bar> \<le> 2 / 3"
proof -
  define p where "p = a * a * (6 - 3 * a)"
  have "0 \<le> a * a" "a * a \<le> 1"
    using assms by (simp_all add: mult_le_one)
  then have "0 \<le> p" and "p \<le> 1 * 6"
    unfolding p_def using assms by (intro mult_nonneg_nonneg mult_mono; simp)+
  moreover have "spec_w1 a = (4 - p) / 6"
    by (simp add: spec_w1_def p_def power2_eq_square algebra_simps)
  ultimately show ?thesis by (simp add: abs_if)
qed

lemma spec_w3_bound:
  assumes "0 \<le> a" and "a \<le> 1"
  shows "\<bar>spec_w3 a\<bar> \<le> 1 / 6"
proof -
  have "0 \<le> a ^ 3" "a ^ 3 \<le> 1"
    using assms by (simp_all add: power_le_one)
  then show ?thesis by (simp add: spec_w3_def)
qed


lemma cubic_g0_lower:
  assumes "0 \<le> a" and "a \<le> 1"
  shows "83 / 500 \<le> \<bar>cubic_g0 a\<bar>"
proof -
  have "\<bar>cubic_g0 a - spec_g0 a\<bar> \<le> 23 / 16777216"
    using cubic_g0_approx [OF assms] by (simp add: approx_def)
  with spec_g0_bounds(1) [OF assms] show ?thesis by linarith
qed

lemma cubic_g1_lower:
  assumes "0 \<le> a" and "a \<le> 1"
  shows "83 / 500 \<le> \<bar>cubic_g1 a\<bar>"
proof -
  have "\<bar>cubic_g1 a - spec_g1 a\<bar> \<le> 15 / 16777216"
    using cubic_g1_approx [OF assms] by (simp add: approx_def)
  with spec_g1_bounds(1) [OF assms] show ?thesis by linarith
qed

lemma cubic_h0_approx:
  assumes "0 \<le> a" and "a \<le> 1"
  shows "approx (cubic_h0 a) (spec_h0 a) (253 / 16) (14747 / 268435456)"
proof -
  have G: "\<bar>spec_g0 a\<bar> \<le> 5 / 6" "1 / 6 \<le> \<bar>spec_g0 a\<bar>"
    using spec_g0_bounds [OF assms] by simp_all
  have q: "approx (fdiv (cubic_w1 a) (cubic_g0 a)) (spec_w1 a / spec_g0 a)
      (59 / 4) (14495 / 268435456)"
    by (rule approx_fdiv [where MS = "2 / 3" and MT = "5 / 6" and mt = "83 / 500"
          and mT = "1 / 6" and Bz = "235 / 16",
          OF cubic_w1_approx [OF assms] cubic_g0_approx [OF assms] spec_w1_bound [OF assms]
            G(1) _ cubic_g0_lower [OF assms] _ G(2)])
      simp_all
  show ?thesis
    unfolding cubic_h0_def spec_h0_def
    by (rule approx_fsub [where Bz = "63 / 4", OF q approx_exact [of "1" "1", simplified]])
      simp_all
qed

lemma cubic_h1_approx:
  assumes "0 \<le> a" and "a \<le> 1"
  shows "approx (cubic_h1 a) (spec_h1 a) (121 / 16) (299 / 33554432)"
proof -
  have G: "\<bar>spec_g1 a\<bar> \<le> 5 / 6" "1 / 6 \<le> \<bar>spec_g1 a\<bar>"
    using spec_g1_bounds [OF assms] by simp_all
  have q: "approx (fdiv (cubic_w3 a) (cubic_g1 a)) (spec_w3 a / spec_g1 a)
      (13 / 2) (71 / 8388608)"
    by (rule approx_fdiv [where MS = "1 / 6" and MT = "5 / 6" and mt = "83 / 500"
          and mT = "1 / 6" and Bz = "103 / 16",
          OF cubic_w3_approx [OF assms] cubic_g1_approx [OF assms] spec_w3_bound [OF assms]
            G(1) _ cubic_g1_lower [OF assms] _ G(2)])
      simp_all
  show ?thesis
    unfolding cubic_h1_def spec_h1_def
    by (rule approx_fadd [where Bz = "15 / 2", OF q approx_exact [of "1" "1", simplified]])
      simp_all
qed

lemma fsub_floorf_range: "0 \<le> fsub x (floorf x) \<and> fsub x (floorf x) \<le> 1"
proof -
  have "0 \<le> x - of_int \<lfloor>x\<rfloor>" and "x - of_int \<lfloor>x\<rfloor> \<le> 1"
    by linarith+
  then show ?thesis
    unfolding fsub_def floorf_def by (rule rnd32_unit_interval)
qed


lemma cubic_offsets_close:
  assumes "0 \<le> a" and "a \<le> 1"
  shows "\<bar>fadd (cubic_w0 a) (cubic_w1 a) - spec_g0 a\<bar> \<le> 1 / 500000"
    and "\<bar>fadd (cubic_w2 a) (cubic_w3 a) - spec_g1 a\<bar> \<le> 1 / 1000000"
    and "\<bar>fsub (fdiv (cubic_w1 a) (fadd (cubic_w0 a) (cubic_w1 a))) 1 - spec_h0 a\<bar>
      \<le> 1 / 10000"
    and "\<bar>fadd (fdiv (cubic_w3 a) (fadd (cubic_w2 a) (cubic_w3 a))) 1 - spec_h1 a\<bar>
      \<le> 1 / 100000"
proof -
  have "\<bar>cubic_g0 a - spec_g0 a\<bar> \<le> 23 / 16777216"
    using cubic_g0_approx [OF assms] by (simp add: approx_def)
  then show "\<bar>fadd (cubic_w0 a) (cubic_w1 a) - spec_g0 a\<bar> \<le> 1 / 500000"
    unfolding cubic_g0_def by linarith
  have "\<bar>cubic_g1 a - spec_g1 a\<bar> \<le> 15 / 16777216"
    using cubic_g1_approx [OF assms] by (simp add: approx_def)
  then show "\<bar>fadd (cubic_w2 a) (cubic_w3 a) - spec_g1 a\<bar> \<le> 1 / 1000000"
    unfolding cubic_g1_def by linarith
  have "\<bar>cubic_h0 a - spec_h0 a\<bar> \<le> 14747 / 268435456"
    using cubic_h0_approx [OF assms] by (simp add: approx_def)
  then show "\<bar>fsub (fdiv (cubic_w1 a) (fadd (cubic_w0 a) (cubic_w1 a))) 1 - spec_h0 a\<bar>
      \<le> 1 / 10000"
    unfolding cubic_h0_def cubic_g0_def by linarith
  have "\<bar>cubic_h1 a - spec_h1 a\<bar> \<le> 299 / 33554432"
    using cubic_h1_approx [OF assms] by (simp add: approx_def)
  then show "\<bar>fadd (fdiv (cubic_w3 a) (fadd (cubic_w2 a) (cubic_w3 a))) 1 - spec_h1 a\<bar>
      \<le> 1 / 100000"
    unfolding cubic_h1_def cubic_g1_def by linarith
qed

text \<open>
  C1.  For every image descriptor of extents \<open>W\<close> and \<open>H\<close> and every coordinate \<open>(u, v)\<close>,
  \<open>kernel_image_interp_bicubic\<close> computes \<open>x = u * W - 0.5\<close> and \<open>y = v * H - 0.5\<close>, splits
  them into the integer parts \<open>px\<close>, \<open>py\<close> and the fractional parts \<open>fx\<close>, \<open>fy\<close>, forms
  the tap coordinates \<open>x0 = (px + h0 fx + 0.5) / W\<close>, \<open>x1 = (px + h1 fx + 0.5) / W\<close>,
  \<open>y0 = (py + h0 fy + 0.5) / H\<close>, \<open>y1 = (py + h1 fy + 0.5) / H\<close>, issues exactly the four
  reads at \<open>(x0, y0)\<close>, \<open>(x1, y0)\<close>, \<open>(x0, y1)\<close>, \<open>(x1, y1)\<close> and returns
  \<open>g0 fy * (g0 fx * S x0 y0 + g1 fx * S x1 y0) + g1 fy * (g0 fx * S x0 y1 + g1 fx * S x1 y1)\<close>.
  The amplitudes and offsets are written out through the four weights: \<open>g0 = w0 + w1\<close>,
  \<open>g1 = w2 + w3\<close>, \<open>h0 = w1 / g0 - 1\<close>, \<open>h1 = w3 / g1 + 1\<close>, each operation the
  single-precision one.  The fractional parts lie in the unit interval, and there the
  computed amplitudes and offsets are those of the specification, evaluated in exact
  arithmetic on the same fractional part, up to the rounding: within \<open>2e-6\<close> and \<open>1e-6\<close>
  for \<open>g0\<close> and \<open>g1\<close>, within \<open>1e-4\<close> and \<open>1e-5\<close> of a texel for \<open>h0\<close> and \<open>h1\<close>.
  The statement holds for every addition, scaling and read of the sampled type, hence
  for the scalar and for the 4-channel instance alike.  The two instances issue the same
  reads, and each channel of the 4-channel result is the scalar result on that channel
  of the read.
\<close>

theorem kernel_image_interp_bicubic_four_taps:
  "(let W = float_of_uint (width info);
        H = float_of_uint (height info);
        x = fsub (fmul u W) (1 / 2);
        y = fsub (fmul v H) (1 / 2);
        px = floorf x;
        py = floorf y;
        fx = fsub x px;
        fy = fsub y py;
        g0x = fadd (cubic_w0 fx) (cubic_w1 fx);
        g1x = fadd (cubic_w2 fx) (cubic_w3 fx);
        g0y = fadd (cubic_w0 fy) (cubic_w1 fy);
        g1y = fadd (cubic_w2 fy) (cubic_w3 fy);
        h0x = fsub (fdiv (cubic_w1 fx) g0x) 1;
        h1x = fadd (fdiv (cubic_w3 fx) g1x) 1;
        h0y = fsub (fdiv (cubic_w1 fy) g0y) 1;
        h1y = fadd (fdiv (cubic_w3 fy) g1y) 1;
        x0 = fdiv (fadd (fadd px h0x) (1 / 2)) W;
        x1 = fdiv (fadd (fadd px h1x) (1 / 2)) W;
        y0 = fdiv (fadd (fadd py h0y) (1 / 2)) H;
        y1 = fdiv (fadd (fadd py h1y) (1 / 2)) H;
        tex = data info
    in kernel_image_interp_bicubic add mul S info (make_float2 u v) =
         (add (mul g0y (add (mul g0x (S tex x0 y0)) (mul g1x (S tex x1 y0))))
              (mul g1y (add (mul g0x (S tex x0 y1)) (mul g1x (S tex x1 y1)))),
          [Read_2D tex x0 y0, Read_2D tex x1 y0, Read_2D tex x0 y1, Read_2D tex x1 y1]) \<and>
       0 \<le> fx \<and> fx \<le> 1 \<and> 0 \<le> fy \<and> fy \<le> 1 \<and>
       \<bar>g0x - spec_g0 fx\<bar> \<le> 1 / 500000 \<and> \<bar>g1x - spec_g1 fx\<bar> \<le> 1 / 1000000 \<and>
       \<bar>g0y - spec_g0 fy\<bar> \<le> 1 / 500000 \<and> \<bar>g1y - spec_g1 fy\<bar> \<le> 1 / 1000000 \<and>
       \<bar>h0x - spec_h0 fx\<bar> \<le> 1 / 10000 \<and> \<bar>h1x - spec_h1 fx\<bar> \<le> 1 / 100000 \<and>
       \<bar>h0y - spec_h0 fy\<bar> \<le> 1 / 10000 \<and> \<bar>h1y - spec_h1 fy\<bar> \<le> 1 / 100000) \<and>
   length (snd (kernel_image_interp_bicubic add mul S info (make_float2 u v))) = 4 \<and>
   snd (kernel_image_interp_bicubic add_float4 mul_float_float4 S4 info uv) =
     snd (kernel_image_interp_bicubic fadd fmul S1 info uv) \<and>
   f4_x (fst (kernel_image_interp_bicubic add_float4 mul_float_float4 S4 info uv)) =
     fst (kernel_image_interp_bicubic fadd fmul (\<lambda>t x y. f4_x (S4 t x y)) info uv) \<and>
   f4_y (fst (kernel_image_interp_bicubic add_float4 mul_float_float4 S4 info uv)) =
     fst (kernel_image_interp_bicubic fadd fmul (\<lambda>t x y. f4_y (S4 t x y)) info uv) \<and>
   f4_z (fst (kernel_image_interp_bicubic add_float4 mul_float_float4 S4 info uv)) =
     fst (kernel_image_interp_bicubic fadd fmul (\<lambda>t x y. f4_z (S4 t x y)) info uv) \<and>
   f4_w (fst (kernel_image_interp_bicubic add_float4 mul_float_float4 S4 info uv)) =
     fst (kernel_image_interp_bicubic fadd fmul (\<lambda>t x y. f4_w (S4 t x y)) info uv)"
proof -
  define fx where
    "fx = fsub (fsub (fmul u (float_of_uint (width info))) (1 / 2))
       (floorf (fsub (fmul u (float_of_uint (width info))) (1 / 2)))"
  define fy where
    "fy = fsub (fsub (fmul v (float_of_uint (height info))) (1 / 2))
       (floorf (fsub (fmul v (float_of_uint (height info))) (1 / 2)))"
  have rx: "0 \<le> fx" "fx \<le> 1" and ry: "0 \<le> fy" "fy \<le> 1"
    unfolding fx_def fy_def using fsub_floorf_range by blast+
  note cx = cubic_offsets_close [OF rx] and cy = cubic_offsets_close [OF ry]
  have taps: "kernel_image_interp_bicubic add mul S info (make_float2 u v) =
      (let W = float_of_uint (width info);
           H = float_of_uint (height info);
           px = floorf (fsub (fmul u W) (1 / 2));
           py = floorf (fsub (fmul v H) (1 / 2));
           g0x = fadd (cubic_w0 fx) (cubic_w1 fx);
           g1x = fadd (cubic_w2 fx) (cubic_w3 fx);
           g0y = fadd (cubic_w0 fy) (cubic_w1 fy);
           g1y = fadd (cubic_w2 fy) (cubic_w3 fy);
           x0 = fdiv (fadd (fadd px (fsub (fdiv (cubic_w1 fx) g0x) 1)) (1 / 2)) W;
           x1 = fdiv (fadd (fadd px (fadd (fdiv (cubic_w3 fx) g1x) 1)) (1 / 2)) W;
           y0 = fdiv (fadd (fadd py (fsub (fdiv (cubic_w1 fy) g0y) 1)) (1 / 2)) H;
           y1 = fdiv (fadd (fadd py (fadd (fdiv (cubic_w3 fy) g1y) 1)) (1 / 2)) H;
           tex = data info
       in (add (mul g0y (add (mul g0x (S tex x0 y0)) (mul g1x (S tex x1 y0))))
               (mul g1y (add (mul g0x (S tex x0 y1)) (mul g1x (S tex x1 y1)))),
           [Read_2D tex x0 y0, Read_2D tex x1 y0, Read_2D tex x0 y1, Read_2D tex x1 y1]))"
    by (simp add: kernel_image_interp_bicubic_def Let_def fx_def fy_def
        cubic_g0_def cubic_g1_def cubic_h0_def cubic_h1_def)
  have channels:
    "snd (kernel_image_interp_bicubic add_float4 mul_float_float4 S4 info uv) =
      snd (kernel_image_interp_bicubic fadd fmul S1 info uv)"
    "f4_x (fst (kernel_image_interp_bicubic add_float4 mul_float_float4 S4 info uv)) =
      fst (kernel_image_interp_bicubic fadd fmul (\<lambda>t x y. f4_x (S4 t x y)) info uv)"
    "f4_y (fst (kernel_image_interp_bicubic add_float4 mul_float_float4 S4 info uv)) =
      fst (kernel_image_interp_bicubic fadd fmul (\<lambda>t x y. f4_y (S4 t x y)) info uv)"
    "f4_z (fst (kernel_image_interp_bicubic add_float4 mul_float_float4 S4 info uv)) =
      fst (kernel_image_interp_bicubic fadd fmul (\<lambda>t x y. f4_z (S4 t x y)) info uv)"
    "f4_w (fst (kernel_image_interp_bicubic add_float4 mul_float_float4 S4 info uv)) =
      fst (kernel_image_interp_bicubic fadd fmul (\<lambda>t x y. f4_w (S4 t x y)) info uv)"
    by (simp_all add: kernel_image_interp_bicubic_def Let_def add_float4_def
        mul_float_float4_def)
  have len: "length (snd (kernel_image_interp_bicubic add mul S info (make_float2 u v))) = 4"
    by (simp add: kernel_image_interp_bicubic_def Let_def)
  show ?thesis
    unfolding Let_def fx_def [symmetric] fy_def [symmetric]
    using rx ry cx cy taps [unfolded Let_def] len channels
    by (intro conjI) assumption+
qed

end
